theory Spec2Isabelle
  imports Complex_Main "HOL-Library.Sublist"
begin

section \<open>The generators behind \<open>random\<close> and \<open>fake\<close>\<close>

text \<open>
  The script draws from two seeded generators, Python's \<open>random\<close> module and the
  \<open>Faker\<close> instance \<open>fake\<close>. Both are libraries outside the repository. A generator
  is modelled by the tape of the draws it is going to deliver: every call reads the head
  of a tape and leaves the rest. The tapes are arbitrary, so a theorem proved for every
  tape holds for whatever the seeded generators deliver.
\<close>

type_synonym 'a tape = "nat \<Rightarrow> 'a"

definition tape_of :: "'a \<Rightarrow> 'a list \<Rightarrow> 'a tape" where
  \<comment> \<open>the tape that starts with the given draws and goes on with \<open>d\<close> for ever\<close>
  "tape_of d xs = (\<lambda>i. if i < length xs then xs ! i else d)"

definition advance :: "'a tape \<Rightarrow> 'a tape" where
  "advance t = (\<lambda>i. t (Suc i))"

record source =
  rnd :: "nat tape"         \<comment> \<open>raw draws of the \<open>random\<close> module\<close>
  fake_text :: "string tape" \<comment> \<open>results of Faker's text providers, in call order\<close>
  fake_num :: "nat tape"    \<comment> \<open>raw draws behind Faker's date provider\<close>

text \<open>
  \<open>random.random()\<close> returns \<open>k / 2^53\<close> for a 53-bit integer \<open>k\<close>, each \<open>k\<close> being
  equally likely: a value of the half-open interval \<open>[0, 1)\<close>, and \<open>0.0\<close> is a possible
  result. Floats are taken at their exact values, and the decimal literals of the script
  at their decimal values.
\<close>

definition random_value :: "nat \<Rightarrow> real" where
  "random_value raw = real (raw mod 2 ^ 53) / 2 ^ 53"

definition random_random :: "source \<Rightarrow> real \<times> source" where
  "random_random s = (random_value (rnd s 0), s\<lparr>rnd := advance (rnd s)\<rparr>)"

text \<open>\<open>random.uniform(a, b)\<close> is \<open>a + (b - a) * random()\<close>.\<close>

definition random_uniform :: "real \<Rightarrow> real \<Rightarrow> source \<Rightarrow> real \<times> source" where
  "random_uniform a b s = (let (r, s') = random_random s in (a + (b - a) * r, s'))"

text \<open>
  \<open>random.randint(a, b)\<close> returns an integer \<open>N\<close> with \<open>a \<le> N \<le> b\<close>, each of the
  \<open>b - a + 1\<close> values being equally likely: the raw draw is reduced to a residue.
\<close>

definition randint_value :: "int \<Rightarrow> int \<Rightarrow> nat \<Rightarrow> int" where
  "randint_value a b raw = a + int (raw mod nat (b - a + 1))"

definition random_randint :: "int \<Rightarrow> int \<Rightarrow> source \<Rightarrow> int \<times> source" where
  "random_randint a b s = (randint_value a b (rnd s 0), s\<lparr>rnd := advance (rnd s)\<rparr>)"

text \<open>
  \<open>random.choice(seq)\<close> returns \<open>seq[k]\<close> for an index \<open>k\<close> below \<open>len(seq)\<close>, each index
  being equally likely. Every call of the script passes a non-empty literal list.
\<close>

definition choice_value :: "'a list \<Rightarrow> nat \<Rightarrow> 'a" where
  "choice_value xs raw = xs ! (raw mod length xs)"

definition random_choice :: "'a list \<Rightarrow> source \<Rightarrow> 'a \<times> source" where
  "random_choice xs s = (choice_value xs (rnd s 0), s\<lparr>rnd := advance (rnd s)\<rparr>)"

text \<open>
  Faker's text providers (\<open>name\<close>, \<open>email\<close>, \<open>phone_number\<close>, \<open>country\<close>, \<open>company\<close>,
  \<open>bs\<close>, \<open>last_name\<close>) each deliver the next text of the tape.
\<close>

definition fake_draw_text :: "source \<Rightarrow> string \<times> source" where
  "fake_draw_text s = (fake_text s 0, s\<lparr>fake_text := advance (fake_text s)\<rparr>)"

definition fake_name :: "source \<Rightarrow> string \<times> source" where
  "fake_name = fake_draw_text"

definition fake_email :: "source \<Rightarrow> string \<times> source" where
  "fake_email = fake_draw_text"

definition fake_phone_number :: "source \<Rightarrow> string \<times> source" where
  "fake_phone_number = fake_draw_text"

definition fake_country :: "source \<Rightarrow> string \<times> source" where
  "fake_country = fake_draw_text"

definition fake_company :: "source \<Rightarrow> string \<times> source" where
  "fake_company = fake_draw_text"

definition fake_bs :: "source \<Rightarrow> string \<times> source" where
  "fake_bs = fake_draw_text"

definition fake_last_name :: "source \<Rightarrow> string \<times> source" where
  "fake_last_name = fake_draw_text"

text \<open>
  \<open>fake.date_time_between(start_date, end_date)\<close> resolves both bounds against the
  clock of the run (\<open>"now"\<close>, \<open>"+1d"\<close>, \<open>"-5y"\<close> are offsets from the current time) and
  returns a time between them. Times are seconds since the epoch; \<open>now\<close> is the clock
  reading of the run, and the bounds are given as offsets in seconds.
\<close>

definition day :: int where
  "day = 86400"

definition year :: int where
  \<comment> \<open>Faker counts a year as 365.24 days\<close>
  "year = 31556736"

definition fake_date_time_between :: "int \<Rightarrow> int \<Rightarrow> int \<Rightarrow> source \<Rightarrow> int \<times> source" where
  "fake_date_time_between now start_off end_off s =
     (now + randint_value start_off end_off (fake_num s 0),
      s\<lparr>fake_num := advance (fake_num s)\<rparr>)"

definition steady :: "nat \<Rightarrow> string \<Rightarrow> nat \<Rightarrow> source" where
  \<comment> \<open>the generators that deliver the same draw for ever\<close>
  "steady r t k = \<lparr>rnd = tape_of r [], fake_text = tape_of t [], fake_num = tape_of k []\<rparr>"

section \<open>Python's string methods\<close>

text \<open>
  Strings are lists of characters, and a character is a code point below 256: ASCII
  and the Latin-1 supplement (the script's \<open>Faker()\<close> has the default locale
  \<open>en_US\<close>). On these, \<open>str.lower\<close>, \<open>str.split\<close> and \<open>str.strip\<close> without arguments
  and \<open>str.replace\<close> are Python's. \<open>str.title\<close> is Python's except at the start of a
  word for the three letters whose title-case form has no code point below 256
  (U+00B5, U+00DF, U+00FF), which it leaves unchanged.
\<close>

definition is_upper :: "char \<Rightarrow> bool" where
  \<comment> \<open>\<open>A-Z\<close>, and U+00C0 to U+00DE without the multiplication sign U+00D7\<close>
  "is_upper c = ((65 \<le> (of_char c :: nat) \<and> (of_char c :: nat) \<le> 90)
                \<or> (192 \<le> (of_char c :: nat) \<and> (of_char c :: nat) \<le> 214)
                \<or> (216 \<le> (of_char c :: nat) \<and> (of_char c :: nat) \<le> 222))"

definition is_lower :: "char \<Rightarrow> bool" where
  \<comment> \<open>\<open>a-z\<close>, U+00AA, U+00B5, U+00BA, and U+00DF to U+00FF without the division sign
      U+00F7\<close>
  "is_lower c = ((97 \<le> (of_char c :: nat) \<and> (of_char c :: nat) \<le> 122)
                \<or> (of_char c :: nat) = 170 \<or> (of_char c :: nat) = 181
                \<or> (of_char c :: nat) = 186
                \<or> (223 \<le> (of_char c :: nat) \<and> (of_char c :: nat) \<le> 246)
                \<or> (248 \<le> (of_char c :: nat) \<and> (of_char c :: nat) \<le> 255))"

definition is_space :: "char \<Rightarrow> bool" where
  \<comment> \<open>tab, line feed, vertical tab, form feed, carriage return, the four separators,
      space, next line U+0085 and no-break space U+00A0\<close>
  "is_space c = ((9 \<le> (of_char c :: nat) \<and> (of_char c :: nat) \<le> 13)
                \<or> (28 \<le> (of_char c :: nat) \<and> (of_char c :: nat) \<le> 32)
                \<or> (of_char c :: nat) = 133 \<or> (of_char c :: nat) = 160)"

definition to_lower :: "char \<Rightarrow> char" where
  "to_lower c = (if is_upper c then char_of ((of_char c :: nat) + 32) else c)"

definition to_upper :: "char \<Rightarrow> char" where
  \<comment> \<open>the lower-case letters with an upper-case form below 256\<close>
  "to_upper c =
     (if (97 \<le> (of_char c :: nat) \<and> (of_char c :: nat) \<le> 122)
         \<or> (224 \<le> (of_char c :: nat) \<and> (of_char c :: nat) \<le> 246)
         \<or> (248 \<le> (of_char c :: nat) \<and> (of_char c :: nat) \<le> 254)
      then char_of ((of_char c :: nat) - 32) else c)"

definition str_lower :: "string \<Rightarrow> string" where
  "str_lower s = map to_lower s"

fun title_from :: "bool \<Rightarrow> string \<Rightarrow> string" where
  "title_from previous_is_cased [] = []"
| "title_from previous_is_cased (c # cs) =
     (if is_lower c then (if previous_is_cased then c else to_upper c) # title_from True cs
      else if is_upper c then (if previous_is_cased then to_lower c else c) # title_from True cs
      else c # title_from False cs)"

definition str_title :: "string \<Rightarrow> string" where
  "str_title s = title_from False s"

fun split_from :: "string \<Rightarrow> string \<Rightarrow> string list" where
  "split_from word [] = (if word = [] then [] else [word])"
| "split_from word (c # cs) =
     (if is_space c then (if word = [] then split_from [] cs else word # split_from [] cs)
      else split_from (word @ [c]) cs)"

definition str_split :: "string \<Rightarrow> string list" where
  "str_split s = split_from [] s"

definition str_strip :: "string \<Rightarrow> string" where
  "str_strip s = rev (dropWhile is_space (rev (dropWhile is_space s)))"

fun replace_from :: "string \<Rightarrow> string \<Rightarrow> string \<Rightarrow> string" where
  "replace_from old new [] = []"
| "replace_from old new (c # cs) =
     (if old \<noteq> [] \<and> take (length old) (c # cs) = old
      then new @ replace_from old new (drop (length old) (c # cs))
      else c # replace_from old new cs)"

definition str_replace :: "string \<Rightarrow> string \<Rightarrow> string \<Rightarrow> string" where
  \<comment> \<open>an empty \<open>old\<close> matches before every character and at the end\<close>
  "str_replace s old new =
     (if old = [] then new @ concat (map (\<lambda>c. c # new) s) else replace_from old new s)"

section \<open>Errors\<close>

datatype error = ValueError string | IndexError | ZeroDivisionError

definition floordiv :: "int \<Rightarrow> int \<Rightarrow> error + int" where
  \<comment> \<open>Python's \<open>//\<close> on integers rounds down, as \<open>div\<close> does, and raises on a zero divisor\<close>
  "floordiv a b = (if b = 0 then Inl ZeroDivisionError else Inr (a div b))"

section \<open>Configuration\<close>

text \<open>
  The script fixes its three sizes as module constants. They are fields of a record
  here, so that the loader can be studied for every total and every batch size;
  \<open>script_config\<close> holds the values of the script.
\<close>

record config =
  BATCH_SIZE :: int
  CUSTOMERS_TOTAL :: int
  PRODUCTS_TOTAL :: int

definition script_config :: config where
  "script_config = \<lparr>BATCH_SIZE = 10000, CUSTOMERS_TOTAL = 900000, PRODUCTS_TOTAL = 150000\<rparr>"

definition COMMIT_EVERY_N_BATCHES :: int where
  "COMMIT_EVERY_N_BATCHES = 10"

section \<open>Constant data\<close>

definition PRODUCT_NAMES :: "string list" where
  "PRODUCT_NAMES =
    [''Wireless Bluetooth Headphones'',
     ''USB-C Charging Cable'',
     ''Portable Power Bank'',
     ''Laptop Stand'',
     ''Wireless Mouse'',
     ''Stainless Steel Water Bottle'',
     ''Coffee Maker'',
     ''Blender'',
     ''Non-Stick Frying Pan'',
     ''Kitchen Knife Set'',
     ''Cotton T-Shirt'',
     ''Denim Jeans'',
     ''Running Shoes'',
     ''Winter Jacket'',
     ''Baseball Cap'',
     ''Electric Toothbrush'',
     ''Yoga Mat'',
     ''Resistance Bands'',
     ''Face Moisturizer'',
     ''Shampoo & Conditioner Set'',
     ''Notebook Set'',
     ''Ballpoint Pens (Pack of 10)'',
     ''Desk Organizer'',
     ''Sticky Notes'',
     ''Printer Paper (500 Sheets)'']"

definition SUPPLIER_SUFFIXES :: "string list" where
  "SUPPLIER_SUFFIXES =
    [''LLC'', ''Ltd'', ''PLC'', ''Inc'', ''Corp'', ''Co'', ''Group'', ''Industries'', []]"

definition SUPPLIER_TYPES :: "string list" where
  "SUPPLIER_TYPES =
    [''Electronics'', ''Distribution'', ''Supply'', ''Manufacturing'', ''Trading'',
     ''Global'', ''International'', ''Wholesale'', ''Solutions'', ''Technologies'']"

type_synonym category = "string \<times> string"

definition categories_data :: "category list" where
  "categories_data =
    [(''Electronics'', ''Electronic devices and accessories''),
     (''Clothing'', ''Apparel and fashion items''),
     (''Food'', ''Food and beverages''),
     (''Books'', ''Books and publications''),
     (''Toys'', ''Toys and games''),
     (''Sports'', ''Sports equipment and gear''),
     (''Home'', ''Home and garden products''),
     (''Beauty'', ''Beauty and personal care'')]"

definition EMAIL_DOMAINS :: "string list" where
  \<comment> \<open>the literal list passed to \<open>random.choice\<close> in the Customers loop\<close>
  "EMAIL_DOMAINS =
    [''gmail.com'', ''yahoo.com'', ''outlook.com'', ''hotmail.com'', ''email.com'', ''mail.com'']"

section \<open>Supplier rows\<close>

text \<open>
  \<open>generate_supplier_name\<close>. The index \<open>[0]\<close> into the words of the buzz phrase raises
  \<open>IndexError\<close> when the phrase has no word; the error comes before the industry type
  is drawn, since the f-string evaluates its fields from left to right.
\<close>

definition generate_supplier_name :: "source \<Rightarrow> error + (string \<times> source)" where
  "generate_supplier_name s =
     (let (company_type, s1) = random_choice [''company'', ''business'', ''combined''] s in
      if company_type = ''company'' then
        (let (c, s2) = fake_company s1;
             base = str_replace (str_replace (str_replace c '', Inc.'' []) '', LLC'' [])
                      '', Ltd'' [];
             (suffix, s3) = random_choice SUPPLIER_SUFFIXES s2
         in Inr (str_strip (base @ '' '' @ suffix), s3))
      else if company_type = ''business'' then
        (let (b, s2) = fake_bs s1 in
         case str_split (str_title b) of
           [] \<Rightarrow> Inl IndexError
         | w # _ \<Rightarrow>
             (let (t, s3) = random_choice SUPPLIER_TYPES s2;
                  base = w @ '' '' @ t;
                  (suffix, s4) = random_choice SUPPLIER_SUFFIXES s3
              in Inr (str_strip (base @ '' '' @ suffix), s4)))
      else
        (let (l, s2) = fake_last_name s1;
             (t, s3) = random_choice SUPPLIER_TYPES s2;
             base = l @ '' '' @ t;
             (suffix, s4) = random_choice SUPPLIER_SUFFIXES s3
         in Inr (str_strip (base @ '' '' @ suffix), s4)))"

text \<open>\<open>[generate_supplier_name() for _ in range(n)]\<close>: the first error ends the loop.\<close>

primrec supplier_names_loop :: "nat \<Rightarrow> source \<Rightarrow> error + (string list \<times> source)" where
  "supplier_names_loop 0 s = Inr ([], s)"
| "supplier_names_loop (Suc n) s =
     (case supplier_names_loop n s of
        Inl e \<Rightarrow> Inl e
      | Inr (names, s1) \<Rightarrow>
          (case generate_supplier_name s1 of
             Inl e \<Rightarrow> Inl e
           | Inr (name, s2) \<Rightarrow> Inr (names @ [name], s2)))"

type_synonym supplier = "string \<times> string \<times> string \<times> string"

text \<open>
  \<open>[(supplier_names[i], fake.name(), fake.country()[:100], fake.phone_number()[:20])
    for i in range(n)]\<close>, for a list \<open>supplier_names\<close> of at least \<open>n\<close> names.
\<close>

primrec suppliers_loop :: "string list \<Rightarrow> nat \<Rightarrow> source \<Rightarrow> supplier list \<times> source" where
  "suppliers_loop supplier_names 0 s = ([], s)"
| "suppliers_loop supplier_names (Suc n) s =
     (let (rows, s1) = suppliers_loop supplier_names n s;
          (contact, s2) = fake_name s1;
          (ctry, s3) = fake_country s2;
          (ph, s4) = fake_phone_number s3
      in (rows @ [(supplier_names ! n, contact, take 100 ctry, take 20 ph)], s4))"

definition suppliers_data :: "source \<Rightarrow> error + (supplier list \<times> source)" where
  "suppliers_data s =
     (case supplier_names_loop 5000 s of
        Inl e \<Rightarrow> Inl e
      | Inr (supplier_names, s1) \<Rightarrow> Inr (suppliers_loop supplier_names 5000 s1))"

section \<open>Customer rows\<close>

record customer =
  customer_name :: "string option"
  email :: string
  phone :: string
  country :: string
  created_date :: int
  is_active :: int

text \<open>Dirty data #1 and #2: NULL CustomerName, invalid email.\<close>

definition gen_name_email :: "source \<Rightarrow> (string option \<times> string) \<times> source" where
  "gen_name_email s =
     (let (r, s1) = random_random s in
      if r < 0.005 then (let (e, s2) = fake_email s1 in ((None, e), s2))
      else
        (let (name, s2) = fake_name s1;
             name_parts = str_split (str_lower name)
         in if length name_parts \<ge> 2 then
              (let first_name = hd name_parts;
                   last_name = last name_parts;
                   (r2, s3) = random_random s2
               in if r2 < 0.01
                  then ((Some name, first_name @ ''.'' @ last_name @ ''@invalid''), s3)
                  else (let (domain, s4) = random_choice EMAIL_DOMAINS s3
                        in ((Some name, first_name @ ''.'' @ last_name @ ''@'' @ domain), s4)))
            else (let (e, s3) = fake_email s2 in ((Some name, e), s3))))"

text \<open>Dirty data #3: future CreatedDate.\<close>

definition gen_created_date :: "int \<Rightarrow> source \<Rightarrow> int \<times> source" where
  "gen_created_date now s =
     (let (r, s1) = random_random s in
      if r < 0.01 then fake_date_time_between now day (30 * day) s1
      else fake_date_time_between now (- (5 * year)) 0 s1)"

definition customer_row :: "int \<Rightarrow> source \<Rightarrow> customer \<times> source" where
  "customer_row now s =
     (let ((cname, mail), s1) = gen_name_email s;
          (created, s2) = gen_created_date now s1;
          (ph, s3) = fake_phone_number s2;
          (ctry, s4) = fake_country s3;
          (active, s5) = random_choice [0, 1] s4
      in (\<lparr>customer_name = cname, email = mail, phone = take 20 ph, country = take 100 ctry,
           created_date = created, is_active = active\<rparr>, s5))"

text \<open>\<open>for _ in range(n): ...; customers_batch.append(row)\<close>.\<close>

primrec customers_loop :: "int \<Rightarrow> nat \<Rightarrow> source \<Rightarrow> customer list \<times> source" where
  "customers_loop now 0 s = ([], s)"
| "customers_loop now (Suc n) s =
     (let (batch, s1) = customers_loop now n s;
          (row, s2) = customer_row now s1
      in (batch @ [row], s2))"

definition customers_batch :: "int \<Rightarrow> int \<Rightarrow> source \<Rightarrow> customer list \<times> source" where
  "customers_batch now batch_size s = customers_loop now (nat batch_size) s"

text \<open>
  The draws behind the customer row generated from \<open>s\<close>: the draw that decides the name
  defect, the full name drawn after it, the draw that decides the email defect and the
  domain chosen after it.
\<close>

definition customer_name_defect :: "source \<Rightarrow> bool" where
  "customer_name_defect s = (fst (random_random s) < 0.005)"

definition drawn_name :: "source \<Rightarrow> string" where
  "drawn_name s = fst (fake_name (snd (random_random s)))"

definition email_defect :: "source \<Rightarrow> bool" where
  "email_defect s = (fst (random_random (snd (fake_name (snd (random_random s))))) < 0.01)"

definition drawn_domain :: "source \<Rightarrow> string" where
  "drawn_domain s =
     fst (random_choice EMAIL_DOMAINS
           (snd (random_random (snd (fake_name (snd (random_random s)))))))"

section \<open>Product rows\<close>

record product =
  product_name :: "string option"
  category_id :: int
  supplier_id :: int
  unit_price :: real
  stock_quantity :: int
  product_created :: int

text \<open>Dirty data #4: NULL ProductName, else the catalog entry at \<open>i % len(PRODUCT_NAMES)\<close>.\<close>

definition gen_product_name :: "nat \<Rightarrow> source \<Rightarrow> string option \<times> source" where
  "gen_product_name i s =
     (let (r, s1) = random_random s in
      if r < 0.002 then (None, s1)
      else (Some (PRODUCT_NAMES ! (i mod length PRODUCT_NAMES)), s1))"

text \<open>Dirty data #5: negative UnitPrice.\<close>

definition gen_unit_price :: "source \<Rightarrow> real \<times> source" where
  "gen_unit_price s =
     (let (r, s1) = random_random s in
      if r < 0.005 then (let (u, s2) = random_uniform 10 1000 s1 in (- u, s2))
      else random_uniform 5 2000 s1)"

text \<open>Dirty data #6: negative StockQuantity.\<close>

definition gen_stock_quantity :: "source \<Rightarrow> int \<times> source" where
  "gen_stock_quantity s =
     (let (r, s1) = random_random s in
      if r < 0.01 then (let (k, s2) = random_randint 1 100 s1 in (- k, s2))
      else random_randint 0 1000 s1)"

text \<open>
  One iteration of the inner loop of the Products table: the fields are drawn in the
  order of the script, the category and the date while the tuple is built.
\<close>

definition product_row :: "int \<Rightarrow> nat \<Rightarrow> source \<Rightarrow> product \<times> source" where
  "product_row now i s =
     (let (pname, s1) = gen_product_name i s;
          (price, s2) = gen_unit_price s1;
          (stock, s3) = gen_stock_quantity s2;
          (sid, s4) = random_randint 1 6000 s3;
          (cid, s5) = random_randint 1 8 s4;
          (created, s6) = fake_date_time_between now (- (3 * year)) 0 s5
      in (\<lparr>product_name = pname, category_id = cid, supplier_id = sid,
           unit_price = price, stock_quantity = stock, product_created = created\<rparr>, s6))"

text \<open>
  \<open>for i in range(n): ...; products_batch.append(row)\<close>: the batch and the generators
  after \<open>n\<close> iterations.
\<close>

primrec products_loop :: "int \<Rightarrow> nat \<Rightarrow> source \<Rightarrow> product list \<times> source" where
  "products_loop now 0 s = ([], s)"
| "products_loop now (Suc n) s =
     (let (batch, s1) = products_loop now n s;
          (row, s2) = product_row now n s1
      in (batch @ [row], s2))"

definition products_batch :: "int \<Rightarrow> int \<Rightarrow> source \<Rightarrow> product list \<times> source" where
  \<comment> \<open>\<open>range(BATCH_SIZE)\<close> is empty for a batch size below 1\<close>
  "products_batch now batch_size s = products_loop now (nat batch_size) s"

text \<open>
  The draws that decide the defects of the product row generated from \<open>s\<close>: the first
  draw of the row decides the name defect, the second the price defect.
\<close>

definition product_name_defect :: "source \<Rightarrow> bool" where
  "product_name_defect s = (fst (random_random s) < 0.002)"

definition price_defect :: "source \<Rightarrow> bool" where
  "price_defect s = (fst (random_random (snd (random_random s))) < 0.005)"

text \<open>
  The raw draw behind the \<open>supplier_id\<close> of row \<open>i\<close> of a batch generated from \<open>s\<close>. Every
  row reads seven draws of \<open>random\<close> (one for the name, two for the price, two for the
  stock, one for the supplier, one for the category), and the supplier is the sixth.
\<close>

definition supplier_draw :: "nat \<Rightarrow> source \<Rightarrow> nat" where
  "supplier_draw i s = rnd s (7 * i + 5)"

text \<open>Valid suppliers are 1..5000; the identifiers 5001..6000 are orphaned.\<close>

definition orphaned :: "int \<Rightarrow> bool" where
  "orphaned sid = (sid > 5000)"

section \<open>The connection\<close>

text \<open>
  The database is an external collaborator whose calls are taken to succeed. The
  connection is modelled by the calls made on it and on its cursor, in order. A DDL
  statement is recorded by its kind and the table it names, a bulk insert
  (\<open>cursor.executemany\<close>) by the rows it submits. Console output is not modelled, apart
  from the numbers of the final summary.
\<close>

datatype event =
    Connect string
  | DropTable string
  | CreateTable string
  | InsertCategories "category list"
  | InsertSuppliers "supplier list"
  | InsertCustomers "customer list"
  | InsertProducts "product list"
  | Commit
  | CursorClose
  | ConnClose

definition commit_periodically :: "event list \<Rightarrow> int \<Rightarrow> int \<Rightarrow> string \<Rightarrow> event list" where
  \<comment> \<open>\<open>total_inserted\<close> and \<open>label\<close> only feed the progress line\<close>
  "commit_periodically conn batch_num total_inserted label =
     (if (batch_num + 1) mod COMMIT_EVERY_N_BATCHES = 0 then conn @ [Commit] else conn)"

section \<open>The batched loading of Customers and Products\<close>

record loader =
  conn :: "event list"
  gens :: source
  total_inserted :: int

text \<open>
  \<open>for batch_num in range(n)\<close>, Customers: the state after \<open>n\<close> iterations. Iteration
  \<open>batch_num\<close> builds a batch, submits it, adds its length to the counter and calls
  \<open>commit_periodically\<close>.
\<close>

primrec customers_batches :: "int \<Rightarrow> int \<Rightarrow> nat \<Rightarrow> loader \<Rightarrow> loader" where
  "customers_batches now batch_size 0 st = st"
| "customers_batches now batch_size (Suc batch_num) st =
     (let st1 = customers_batches now batch_size batch_num st;
          (batch, s) = customers_batch now batch_size (gens st1);
          total = total_inserted st1 + int (length batch)
      in \<lparr>conn = commit_periodically (conn st1 @ [InsertCustomers batch]) (int batch_num)
                   total ''customers'',
          gens = s,
          total_inserted = total\<rparr>)"

text \<open>
  The loading phase of Customers, from \<open>total_batches = CUSTOMERS_TOTAL // BATCH_SIZE\<close>
  to the \<open>conn.commit()\<close> after the loop.
\<close>

definition load_customers :: "config \<Rightarrow> int \<Rightarrow> event list \<Rightarrow> source \<Rightarrow> error + loader" where
  "load_customers cfg now c s =
     (case floordiv (CUSTOMERS_TOTAL cfg) (BATCH_SIZE cfg) of
        Inl e \<Rightarrow> Inl e
      | Inr total_batches \<Rightarrow>
          (let st = customers_batches now (BATCH_SIZE cfg) (nat total_batches)
                      \<lparr>conn = c, gens = s, total_inserted = 0\<rparr>
           in Inr (st\<lparr>conn := conn st @ [Commit]\<rparr>)))"

primrec products_batches :: "int \<Rightarrow> int \<Rightarrow> nat \<Rightarrow> loader \<Rightarrow> loader" where
  "products_batches now batch_size 0 st = st"
| "products_batches now batch_size (Suc batch_num) st =
     (let st1 = products_batches now batch_size batch_num st;
          (batch, s) = products_batch now batch_size (gens st1);
          total = total_inserted st1 + int (length batch)
      in \<lparr>conn = commit_periodically (conn st1 @ [InsertProducts batch]) (int batch_num)
                   total ''products'',
          gens = s,
          total_inserted = total\<rparr>)"

definition load_products :: "config \<Rightarrow> int \<Rightarrow> event list \<Rightarrow> source \<Rightarrow> error + loader" where
  "load_products cfg now c s =
     (case floordiv (PRODUCTS_TOTAL cfg) (BATCH_SIZE cfg) of
        Inl e \<Rightarrow> Inl e
      | Inr total_batches \<Rightarrow>
          (let st = products_batches now (BATCH_SIZE cfg) (nat total_batches)
                      \<lparr>conn = c, gens = s, total_inserted = 0\<rparr>
           in Inr (st\<lparr>conn := conn st @ [Commit]\<rparr>)))"

section \<open>The script\<close>

record summary =
  categories_rows :: int
  suppliers_rows :: int
  customers_rows :: int
  products_rows :: int
  total_rows :: int

definition final_summary :: "config \<Rightarrow> summary" where
  "final_summary cfg =
     \<lparr>categories_rows = int (length categories_data),
      suppliers_rows = 5000,
      customers_rows = CUSTOMERS_TOTAL cfg,
      products_rows = PRODUCTS_TOTAL cfg,
      total_rows = int (length categories_data) + 5000 + CUSTOMERS_TOTAL cfg
                   + PRODUCTS_TOTAL cfg\<rparr>"

text \<open>
  The body of the \<open>try\<close> block after the connection is made. It returns the calls made
  on the connection, and the summary or the error that ended the block.
\<close>

definition try_body :: "config \<Rightarrow> int \<Rightarrow> event list \<Rightarrow> source \<Rightarrow> event list \<times> (error + summary)" where
  "try_body cfg now c0 s0 =
     (let c1 = c0 @ [DropTable ''dbo.Categories'', CreateTable ''dbo.Categories'',
                     InsertCategories categories_data, Commit];
          c2 = c1 @ [DropTable ''dbo.Suppliers'', CreateTable ''dbo.Suppliers'']
      in case suppliers_data s0 of
           Inl e \<Rightarrow> (c2, Inl e)
         | Inr (suppliers, s1) \<Rightarrow>
             (let c3 = c2 @ [InsertSuppliers suppliers, Commit];
                  c4 = c3 @ [DropTable ''dbo.Customers'', CreateTable ''dbo.Customers'', Commit]
              in case load_customers cfg now c4 s1 of
                   Inl e \<Rightarrow> (c4, Inl e)
                 | Inr st \<Rightarrow>
                     (let c5 = conn st @ [DropTable ''dbo.Products'',
                                          CreateTable ''dbo.Products'', Commit]
                      in case load_products cfg now c5 (gens st) of
                           Inl e \<Rightarrow> (c5, Inl e)
                         | Inr st' \<Rightarrow> (conn st', Inr (final_summary cfg)))))"

text \<open>
  The environment after \<open>load_dotenv()\<close> is a map from names to values. \<open>not SQL_HOST\<close>
  holds for a missing and for an empty value.
\<close>

definition getenv :: "(string \<rightharpoonup> string) \<Rightarrow> string \<Rightarrow> string option" where
  "getenv env name = env name"

definition getenv_default :: "(string \<rightharpoonup> string) \<Rightarrow> string \<Rightarrow> string \<Rightarrow> string" where
  "getenv_default env name dflt = (case env name of None \<Rightarrow> dflt | Some v \<Rightarrow> v)"

definition missing_host_message :: string where
  "missing_host_message =
     ''SQL_SERVER_HOST is missing. Add it to your .env file, e.g.:'' @ [CHR 0x0A] @
     ''SQL_SERVER_HOST=Inteli5SSD-Laptop'' @ [CHR 0x5C] @ ''SQLEXPRESS''"

definition conn_string :: "string \<Rightarrow> string \<Rightarrow> string" where
  "conn_string SQL_HOST SQL_DB =
     ''DRIVER={ODBC Driver 17 for SQL Server};'' @ ''SERVER='' @ SQL_HOST @ '';'' @
     ''DATABASE='' @ SQL_DB @ '';'' @ ''Trusted_Connection=yes;''"

text \<open>
  The seeding: \<open>Faker.seed(k)\<close> and \<open>random.seed(k)\<close> fix the draws that follow as a
  function of \<open>k\<close>. The library is a parameter of the script.
\<close>

record library =
  random_seed :: "int \<Rightarrow> nat tape"
  faker_seed_text :: "int \<Rightarrow> string tape"
  faker_seed_num :: "int \<Rightarrow> nat tape"

definition seeded :: "library \<Rightarrow> source" where
  "seeded lib = \<lparr>rnd = random_seed lib 42, fake_text = faker_seed_text lib 42,
                 fake_num = faker_seed_num lib 42\<rparr>"

record outcome =
  db_calls :: "event list"
  result :: "error + summary"

text \<open>
  The whole script, for a library, a configuration, an environment and the clock
  reading \<open>now\<close>. The \<open>ValueError\<close> is raised before the \<open>try\<close> block; an error inside it is
  raised again after the \<open>finally\<close> block has closed the cursor and the connection.
\<close>

definition main :: "library \<Rightarrow> config \<Rightarrow> (string \<rightharpoonup> string) \<Rightarrow> int \<Rightarrow> outcome" where
  "main lib cfg env now =
     (let s0 = seeded lib;
          SQL_HOST = getenv env ''SQL_SERVER_HOST'';
          SQL_DB = getenv_default env ''SQL_SERVER_DB'' ''TransactionDB_UAT''
      in case SQL_HOST of
           None \<Rightarrow> \<lparr>db_calls = [], result = Inl (ValueError missing_host_message)\<rparr>
         | Some host \<Rightarrow>
             if host = [] then \<lparr>db_calls = [], result = Inl (ValueError missing_host_message)\<rparr>
             else (let (c, r) = try_body cfg now [Connect (conn_string host SQL_DB)] s0
                   in \<lparr>db_calls = c @ [CursorClose, ConnClose], result = r\<rparr>))"

section \<open>Reading the calls on the connection\<close>

text \<open>The batches submitted to Customers and to Products, and the number of commits.\<close>

fun customer_inserts :: "event list \<Rightarrow> customer list list" where
  "customer_inserts [] = []"
| "customer_inserts (InsertCustomers rows # es) = rows # customer_inserts es"
| "customer_inserts (e # es) = customer_inserts es"

fun product_inserts :: "event list \<Rightarrow> product list list" where
  "product_inserts [] = []"
| "product_inserts (InsertProducts rows # es) = rows # product_inserts es"
| "product_inserts (e # es) = product_inserts es"

definition count_commits :: "event list \<Rightarrow> nat" where
  "count_commits es = length (filter (\<lambda>e. e = Commit) es)"

text \<open>
  The calls of a loading phase of \<open>n\<close> batches as the specification words them: batch
  \<open>batch_num\<close> is submitted, a commit follows it when \<open>batch_num + 1\<close> is a multiple of
  10, and one more commit ends the phase.
\<close>

definition spec_loading_calls :: "(nat \<Rightarrow> event) \<Rightarrow> nat \<Rightarrow> event list" where
  "spec_loading_calls submit n =
     concat (map (\<lambda>batch_num. submit batch_num #
                    (if (int batch_num + 1) mod 10 = 0 then [Commit] else []))
                 [0..<n])
     @ [Commit]"

text \<open>
  The generators at the start of iteration \<open>batch_num\<close> of a loading phase that starts
  with the generators \<open>s\<close>.
\<close>

definition customers_gens :: "int \<Rightarrow> int \<Rightarrow> nat \<Rightarrow> source \<Rightarrow> source" where
  "customers_gens now batch_size batch_num s =
     gens (customers_batches now batch_size batch_num \<lparr>conn = [], gens = s, total_inserted = 0\<rparr>)"

definition products_gens :: "int \<Rightarrow> int \<Rightarrow> nat \<Rightarrow> source \<Rightarrow> source" where
  "products_gens now batch_size batch_num s =
     gens (products_batches now batch_size batch_num \<lparr>conn = [], gens = s, total_inserted = 0\<rparr>)"

text \<open>A call with the creation dates of its rows erased.\<close>

fun undated :: "event \<Rightarrow> event" where
  "undated (InsertCustomers rows) = InsertCustomers (map (\<lambda>r. r\<lparr>created_date := 0\<rparr>) rows)"
| "undated (InsertProducts rows) = InsertProducts (map (\<lambda>r. r\<lparr>product_created := 0\<rparr>) rows)"
| "undated e = e"

text \<open>The library whose seeded generators deliver the same draw for ever.\<close>

definition steady_library :: "nat \<Rightarrow> string \<Rightarrow> nat \<Rightarrow> library" where
  "steady_library r t k =
     \<lparr>random_seed = (\<lambda>seed. tape_of r []), faker_seed_text = (\<lambda>seed. tape_of t []),
      faker_seed_num = (\<lambda>seed. tape_of k [])\<rparr>"

text \<open>The number of rows submitted over all bulk inserts.\<close>

fun rows_inserted :: "event list \<Rightarrow> nat" where
  "rows_inserted [] = 0"
| "rows_inserted (InsertCategories rows # es) = length rows + rows_inserted es"
| "rows_inserted (InsertSuppliers rows # es) = length rows + rows_inserted es"
| "rows_inserted (InsertCustomers rows # es) = length rows + rows_inserted es"
| "rows_inserted (InsertProducts rows # es) = length rows + rows_inserted es"
| "rows_inserted (e # es) = rows_inserted es"

section \<open>Evaluating tapes\<close>

lemma tape_of_simps [simp]:
  "tape_of d [] i = d"
  "tape_of d (x # xs) 0 = x"
  "tape_of d (x # xs) (Suc i) = tape_of d xs i"
  by (simp_all add: tape_of_def)

lemma advance_tape_of [simp]:
  "advance (tape_of d (x # xs)) = tape_of d xs"
  "advance (tape_of d []) = tape_of d []"
  by (rule ext, simp add: advance_def)+

section \<open>The ranges of the draws\<close>

lemma randint_value_range:
  "a \<le> b \<Longrightarrow> a \<le> randint_value a b raw \<and> randint_value a b raw \<le> b"
proof -
  assume ab: "a \<le> b"
  then have pos: "0 < nat (b - a + 1)" by simp
  from pos have "raw mod nat (b - a + 1) < nat (b - a + 1)" by (rule mod_less_divisor)
  with ab show ?thesis unfolding randint_value_def by linarith
qed

lemma random_random_range: "0 \<le> fst (random_random s) \<and> fst (random_random s) < 1"
proof -
  have "rnd s 0 mod 2 ^ 53 < (2 ^ 53 :: nat)" by simp
  then have "real (rnd s 0 mod 2 ^ 53) < 2 ^ 53"
    by (metis of_nat_less_iff of_nat_numeral of_nat_power)
  then show ?thesis by (simp add: random_random_def random_value_def)
qed

lemma random_below_iff:
  assumes "raw < 2 ^ 53"
  shows "random_value raw < 0.002 \<longleftrightarrow> raw < 18014398509482"
    and "random_value raw < 0.005 \<longleftrightarrow> raw < 45035996273705"
proof -
  have v: "random_value raw = real raw / 9007199254740992"
    using assms by (simp add: random_value_def)
  have "real raw / 9007199254740992 < 0.002 \<longleftrightarrow> real raw * 1000 < 18014398509481984"
    by (simp add: field_simps)
  also have "\<dots> \<longleftrightarrow> real (raw * 1000) < real 18014398509481984"
    by simp
  also have "\<dots> \<longleftrightarrow> raw * 1000 < 18014398509481984"
    by (rule of_nat_less_iff)
  also have "\<dots> \<longleftrightarrow> raw < 18014398509482"
    by linarith
  finally show "random_value raw < 0.002 \<longleftrightarrow> raw < 18014398509482"
    by (simp only: v)
  have "real raw / 9007199254740992 < 0.005 \<longleftrightarrow> real raw * 1000 < 45035996273704960"
    by (simp add: field_simps)
  also have "\<dots> \<longleftrightarrow> real (raw * 1000) < real 45035996273704960"
    by simp
  also have "\<dots> \<longleftrightarrow> raw * 1000 < 45035996273704960"
    by (rule of_nat_less_iff)
  also have "\<dots> \<longleftrightarrow> raw < 45035996273705"
    by linarith
  finally show "random_value raw < 0.005 \<longleftrightarrow> raw < 45035996273705"
    by (simp only: v)
qed

lemma defect_counts:
  "card {raw \<in> {0..<2 ^ 53}. random_value raw < 0.002} = 18014398509482"
  "card {raw \<in> {0..<2 ^ 53}. random_value raw < 0.005} = 45035996273705"
proof -
  have "{raw \<in> {0..<2 ^ 53}. random_value raw < 0.002} = {0..<18014398509482}"
  proof (rule set_eqI)
    fix raw :: nat
    show "raw \<in> {raw \<in> {0..<2 ^ 53}. random_value raw < 0.002} \<longleftrightarrow> raw \<in> {0..<18014398509482}"
    proof (cases "raw < 2 ^ 53")
      case True
      then show ?thesis using random_below_iff(1) [OF True] by simp
    next
      case False
      then show ?thesis by simp
    qed
  qed
  then show "card {raw \<in> {0..<2 ^ 53}. random_value raw < 0.002} = 18014398509482"
    by (simp only: card_atLeastLessThan diff_zero)
  have "{raw \<in> {0..<2 ^ 53}. random_value raw < 0.005} = {0..<45035996273705}"
  proof (rule set_eqI)
    fix raw :: nat
    show "raw \<in> {raw \<in> {0..<2 ^ 53}. random_value raw < 0.005} \<longleftrightarrow> raw \<in> {0..<45035996273705}"
    proof (cases "raw < 2 ^ 53")
      case True
      then show ?thesis using random_below_iff(2) [OF True] by simp
    next
      case False
      then show ?thesis by simp
    qed
  qed
  then show "card {raw \<in> {0..<2 ^ 53}. random_value raw < 0.005} = 45035996273705"
    by (simp only: card_atLeastLessThan diff_zero)
qed

lemma defect_probabilities:
  "\<bar>real (card {raw \<in> {0..<2 ^ 53}. random_value raw < 0.002}) / 2 ^ 53 - 0.002\<bar> < 1 / 2 ^ 53"
  "\<bar>real (card {raw \<in> {0..<2 ^ 53}. random_value raw < 0.005}) / 2 ^ 53 - 0.005\<bar> < 1 / 2 ^ 53"
  unfolding defect_counts by simp_all

section \<open>Rows of a product batch\<close>

lemma products_loop_length: "length (fst (products_loop now n s)) = n"
  by (induction n) (simp_all add: case_prod_beta)

lemma products_loop_nth:
  "i < n \<Longrightarrow> fst (products_loop now n s) ! i = fst (product_row now i (snd (products_loop now i s)))"
proof (induction n)
  case 0
  then show ?case by simp
next
  case (Suc n)
  show ?case
  proof (cases "i = n")
    case True
    then show ?thesis
      by (simp add: nth_append case_prod_beta products_loop_length)
  next
    case False
    with Suc.prems have "i < n" by simp
    then show ?thesis
      using Suc.IH
      by (simp add: nth_append case_prod_beta products_loop_length)
  qed
qed

lemma rnd_after_name: "rnd (snd (gen_product_name i s)) = advance (rnd s)"
  by (simp add: gen_product_name_def random_random_def case_prod_beta)

lemma rnd_after_price: "rnd (snd (gen_unit_price s)) = advance (advance (rnd s))"
  by (simp add: gen_unit_price_def random_uniform_def random_random_def case_prod_beta)

lemma rnd_after_stock: "rnd (snd (gen_stock_quantity s)) = advance (advance (rnd s))"
  by (simp add: gen_stock_quantity_def random_randint_def random_random_def case_prod_beta)

lemma product_row_sixth_draw:
  "supplier_id (fst (product_row now i s)) = randint_value 1 6000 (rnd s 5)"
  by (simp add: product_row_def case_prod_beta random_randint_def rnd_after_stock rnd_after_price
      rnd_after_name advance_def eval_nat_numeral)

lemma rnd_after_row: "rnd (snd (product_row now i s)) = (\<lambda>j. rnd s (7 + j))"
  by (simp add: product_row_def case_prod_beta random_randint_def fake_date_time_between_def
      rnd_after_stock rnd_after_price rnd_after_name advance_def eval_nat_numeral)

lemma rnd_after_loop: "rnd (snd (products_loop now n s)) = (\<lambda>j. rnd s (7 * n + j))"
proof (induction n)
  case 0
  then show ?case by simp
next
  case (Suc n)
  then show ?case
    by (simp add: case_prod_beta rnd_after_row add.assoc add.left_commute)
qed

lemma products_batch_supplier_draw:
  assumes "i < nat B"
  shows "supplier_id (fst (products_batch now B s) ! i) = randint_value 1 6000 (supplier_draw i s)"
  using assms
  by (simp add: products_batch_def products_loop_nth product_row_sixth_draw rnd_after_loop
      supplier_draw_def)

lemma randint_6000_image: "randint_value 1 6000 ` {0..<6000} = {1..6000}"
proof
  show "randint_value 1 6000 ` {0..<6000} \<subseteq> {1..6000}"
    using randint_value_range [of 1 6000] by auto
  show "{1..6000} \<subseteq> randint_value 1 6000 ` {0..<6000}"
  proof
    fix k :: int
    assume "k \<in> {1..6000}"
    then have "nat (k - 1) < 6000" and "1 \<le> k" by auto
    then have "k = randint_value 1 6000 (nat (k - 1))" and "nat (k - 1) \<in> {0..<6000}"
      by (simp_all add: randint_value_def)
    then show "k \<in> randint_value 1 6000 ` {0..<6000}" by blast
  qed
qed

lemma products_batch_row:
  assumes "row \<in> set (fst (products_batch now B s))"
  obtains i where "i < nat B" and "row = fst (product_row now i (snd (products_loop now i s)))"
proof -
  from assms obtain i where "i < length (fst (products_loop now (nat B) s))"
    and "row = fst (products_loop now (nat B) s) ! i"
    unfolding products_batch_def by (auto simp: in_set_conv_nth)
  then have "i < nat B" and "row = fst (product_row now i (snd (products_loop now i s)))"
    by (simp_all add: products_loop_length products_loop_nth)
  then show thesis by (rule that)
qed

lemma product_row_category:
  "category_id (fst (product_row now i s)) = randint_value 1 8 (rnd (snd (random_randint 1 6000 (snd (gen_stock_quantity (snd (gen_unit_price (snd (gen_product_name i s)))))))) 0)"
  by (simp add: product_row_def case_prod_beta random_randint_def)

lemma gen_product_name_snd: "snd (gen_product_name i s) = snd (random_random s)"
  by (simp add: gen_product_name_def case_prod_beta)

lemma product_row_price:
  "unit_price (fst (product_row now i s)) = fst (gen_unit_price (snd (random_random s)))"
  by (simp add: product_row_def case_prod_beta gen_product_name_snd)

lemma product_row_name:
  "product_name (fst (product_row now i s)) = fst (gen_product_name i s)"
  by (simp add: product_row_def case_prod_beta)

lemma gen_unit_price_range:
  "(fst (random_random s) < 0.005 \<longrightarrow> - 1000 < fst (gen_unit_price s) \<and> fst (gen_unit_price s) \<le> - 10)
   \<and> (\<not> fst (random_random s) < 0.005 \<longrightarrow> 5 \<le> fst (gen_unit_price s) \<and> fst (gen_unit_price s) < 2000)"
  using random_random_range [of "snd (random_random s)"]
  by (simp add: gen_unit_price_def random_uniform_def case_prod_beta)

lemma orphan_count: "card {raw \<in> {0..<6000}. orphaned (randint_value 1 6000 raw)} = 1000"
proof -
  have "{raw \<in> {0..<6000}. orphaned (randint_value 1 6000 raw)} = {5000..<6000}"
    by (auto simp: orphaned_def randint_value_def)
  then show ?thesis by simp
qed

lemma concat_replicate_nth:
  "xs \<noteq> [] \<Longrightarrow> i < n * length xs \<Longrightarrow> concat (replicate n xs) ! i = xs ! (i mod length xs)"
proof (induction n arbitrary: i)
  case 0
  then show ?case by simp
next
  case (Suc n)
  show ?case
  proof (cases "i < length xs")
    case True
    then show ?thesis by (simp add: nth_append)
  next
    case False
    then have "i - length xs < n * length xs" using Suc.prems by simp
    then have "concat (replicate n xs) ! (i - length xs) = xs ! ((i - length xs) mod length xs)"
      using Suc.IH Suc.prems(1) by blast
    moreover have "(i - length xs) mod length xs = i mod length xs"
      using False by (simp add: le_mod_geq)
    ultimately show ?thesis using False by (simp add: nth_append)
  qed
qed

section \<open>Generators that never change\<close>

lemma steady_random [simp]:
  "snd (random_random (steady r t k)) = steady r t k"
  "snd (random_randint a b (steady r t k)) = steady r t k"
  "snd (random_choice xs (steady r t k)) = steady r t k"
  "snd (random_uniform x y (steady r t k)) = steady r t k"
  by (simp_all add: steady_def random_random_def random_value_def random_randint_def random_choice_def
      random_uniform_def)

lemma steady_fake [simp]:
  "snd (fake_draw_text (steady r t k)) = steady r t k"
  "snd (fake_date_time_between now a b (steady r t k)) = steady r t k"
  by (simp_all add: steady_def fake_draw_text_def fake_date_time_between_def)

lemma steady_sel [simp]:
  "rnd (steady r t k) i = r"
  "fake_text (steady r t k) i = t"
  "fake_num (steady r t k) i = k"
  by (simp_all add: steady_def)

lemma steady_product_row [simp]: "snd (product_row now i (steady r t k)) = steady r t k"
  by (simp add: product_row_def gen_product_name_def gen_unit_price_def gen_stock_quantity_def
      case_prod_beta Let_def)

lemma steady_products_loop [simp]: "snd (products_loop now n (steady r t k)) = steady r t k"
  by (induction n) (simp_all add: case_prod_beta)

lemma steady_draws [simp]:
  "fst (random_random (steady r t k)) = real (r mod 2 ^ 53) / 2 ^ 53"
  "fst (random_randint a b (steady r t k)) = randint_value a b r"
  "fst (random_choice xs (steady r t k)) = choice_value xs r"
  "fst (fake_draw_text (steady r t k)) = t"
  by (simp_all add: steady_def random_random_def random_value_def random_randint_def random_choice_def
      fake_draw_text_def)

lemma steady_generate_supplier_name:
  "\<exists>name. generate_supplier_name (steady 0 t k) = Inr (name, steady 0 t k)"
  by (simp add: generate_supplier_name_def case_prod_beta choice_value_def fake_company_def)

lemma steady_supplier_names_loop:
  "\<exists>names. supplier_names_loop n (steady 0 t k) = Inr (names, steady 0 t k)"
proof (induction n)
  case 0
  then show ?case by simp
next
  case (Suc n)
  then obtain names where "supplier_names_loop n (steady 0 t k) = Inr (names, steady 0 t k)"
    by blast
  moreover obtain name where "generate_supplier_name (steady 0 t k) = Inr (name, steady 0 t k)"
    using steady_generate_supplier_name by blast
  ultimately show ?case by simp
qed

lemma steady_suppliers_loop: "snd (suppliers_loop names n (steady r t k)) = steady r t k"
  by (induction n)
    (simp_all add: case_prod_beta fake_name_def fake_country_def fake_phone_number_def)

lemma steady_suppliers_data:
  "\<exists>rows. suppliers_data (steady 0 t k) = Inr (rows, steady 0 t k)"
proof -
  obtain names where "supplier_names_loop 5000 (steady 0 t k) = Inr (names, steady 0 t k)"
    using steady_supplier_names_loop by blast
  then have "suppliers_data (steady 0 t k)
      = Inr (fst (suppliers_loop names 5000 (steady 0 t k)), steady 0 t k)"
    by (simp add: suppliers_data_def prod_eq_iff steady_suppliers_loop)
  then show ?thesis by blast
qed

section \<open>The suppliers table\<close>

lemma suppliers_loop_length: "length (fst (suppliers_loop names n s)) = n"
  by (induction n) (simp_all add: case_prod_beta)

lemma suppliers_data_length:
  assumes "suppliers_data s = Inr (rows, s')"
  shows "length rows = 5000"
proof -
  from assms obtain names s1 where "rows = fst (suppliers_loop names 5000 s1)"
    by (auto simp: suppliers_data_def split: sum.splits prod.splits) (metis fst_conv)
  then show ?thesis by (simp add: suppliers_loop_length)
qed

lemma length_PRODUCT_NAMES: "length PRODUCT_NAMES = 25"
  by (simp add: PRODUCT_NAMES_def)

section \<open>Product names, prices and foreign keys\<close>

text \<open>
  C3. In a batch of \<open>B\<close> product rows, the row at index \<open>i\<close> whose name defect does not
  fire is named by the catalog entry at index \<open>i mod 25\<close>; the catalog has 25 entries.
  Hence two such rows whose indices agree modulo 25 (0 and 25, say) carry the same name,
  and in a batch of 10,000 rows the name of row \<open>i\<close> is entry \<open>i\<close> of the catalog
  repeated 400 times in order. The name defect fires when \<open>random()\<close> is below 0.002: of
  the \<open>2^53\<close> equally likely values of the draw, a share within \<open>2^-53\<close> of 0.002.
\<close>
theorem product_name_cycles:
  assumes "i < nat B" and "\<not> product_name_defect (snd (products_loop now i s))"
  shows "product_name (fst (products_batch now B s) ! i) = Some (PRODUCT_NAMES ! (i mod 25))
       \<and> length PRODUCT_NAMES = 25
       \<and> (\<forall>j < nat B. \<not> product_name_defect (snd (products_loop now j s)) \<and> j mod 25 = i mod 25
            \<longrightarrow> product_name (fst (products_batch now B s) ! j)
                = product_name (fst (products_batch now B s) ! i))
       \<and> (B = 10000 \<longrightarrow> length (concat (replicate 400 PRODUCT_NAMES)) = 10000
            \<and> PRODUCT_NAMES ! (i mod 25) = concat (replicate 400 PRODUCT_NAMES) ! i)
       \<and> \<bar>real (card {raw \<in> {0..<2 ^ 53}. random_value raw < 0.002}) / 2 ^ 53 - 0.002\<bar>
           < 1 / 2 ^ 53"
proof -
  have name: "product_name (fst (products_batch now B s) ! j) = Some (PRODUCT_NAMES ! (j mod 25))"
    if "j < nat B" and "\<not> product_name_defect (snd (products_loop now j s))" for j
    using that
    by (simp add: products_batch_def products_loop_nth product_row_name gen_product_name_def
        product_name_defect_def case_prod_beta length_PRODUCT_NAMES)
  have rep: "length (concat (replicate 400 PRODUCT_NAMES)) = 10000
       \<and> PRODUCT_NAMES ! (i mod 25) = concat (replicate 400 PRODUCT_NAMES) ! i" if "B = 10000"
  proof -
    from that assms(1) have "i < 400 * length PRODUCT_NAMES"
      by (simp add: length_PRODUCT_NAMES)
    moreover have "PRODUCT_NAMES \<noteq> []" using length_PRODUCT_NAMES by auto
    ultimately have "concat (replicate 400 PRODUCT_NAMES) ! i = PRODUCT_NAMES ! (i mod 25)"
      using concat_replicate_nth [of PRODUCT_NAMES i 400] by (simp add: length_PRODUCT_NAMES)
    moreover have "length (concat (replicate 400 PRODUCT_NAMES)) = 10000"
      by (simp add: length_concat length_PRODUCT_NAMES sum_list_replicate)
    ultimately show ?thesis by simp
  qed
  show ?thesis
    using name [OF assms] name rep length_PRODUCT_NAMES defect_probabilities(1) by simp
qed

theorem product_name_cycles_witness:
  "product_name (fst (products_batch 0 26 (steady (2 ^ 52) [] 0)) ! 0)
     = Some ''Wireless Bluetooth Headphones''
   \<and> product_name (fst (products_batch 0 26 (steady (2 ^ 52) [] 0)) ! 25)
     = product_name (fst (products_batch 0 26 (steady (2 ^ 52) [] 0)) ! 0)"
proof -
  have nd: "\<not> product_name_defect (steady (2 ^ 52) [] 0)"
    by (simp add: product_name_defect_def)
  have "(0::nat) < nat 26" by simp
  from product_name_cycles [OF this, of 0 "steady (2 ^ 52) [] 0"] nd
  show ?thesis by (simp add: PRODUCT_NAMES_def)
qed

text \<open>
  C5. Every row of every product batch has a \<open>category_id\<close> between 1 and 8, whatever
  the generators deliver and so whichever defects fire; there are 8 categories.
\<close>
theorem category_id_valid:
  assumes "row \<in> set (fst (products_batch now B s))"
  shows "1 \<le> category_id row \<and> category_id row \<le> 8 \<and> int (length categories_data) = 8"
proof -
  from assms obtain i where "row = fst (product_row now i (snd (products_loop now i s)))"
    by (rule products_batch_row)
  then show ?thesis
    using randint_value_range [of 1 8]
    by (simp add: product_row_category categories_data_def)
qed

theorem category_id_valid_witness:
  "fst (product_row 0 0 (steady 7 [] 0)) \<in> set (fst (products_batch 0 1 (steady 7 [] 0)))
   \<and> category_id (fst (product_row 0 0 (steady 7 [] 0))) = 8"
proof -
  have m: "fst (product_row 0 0 (steady 7 [] 0)) \<in> set (fst (products_batch 0 1 (steady 7 [] 0)))"
    by (simp add: products_batch_def case_prod_beta)
  have "category_id (fst (product_row 0 0 (steady 7 [] 0))) = 8"
    by (simp add: product_row_category gen_product_name_snd gen_stock_quantity_def gen_unit_price_def
      case_prod_beta randint_value_def)
  with category_id_valid [OF m] m show ?thesis by simp
qed

text \<open>
  C4. In a batch of \<open>B\<close> product rows, the \<open>supplier_id\<close> of the row at index \<open>i\<close> is the
  row's supplier draw reduced into 1..6000, so it lies between 1 and 6000; it is orphaned
  exactly when it lies in 5001..6000, that is when the residue of the draw is 5000 or
  more, and valid exactly when it lies in 1..5000. As the draw runs through its 6000
  equally likely residues, the row takes every identifier of 1..6000 and is orphaned
  for exactly 1000 of them: the probability that the row is orphaned is 1000/6000. The
  suppliers table receives 5000 rows whenever its generation succeeds.
\<close>

theorem supplier_id_in_range:
  assumes "i < nat B"
  shows "supplier_id (fst (products_batch now B s) ! i) = randint_value 1 6000 (supplier_draw i s)
       \<and> 1 \<le> supplier_id (fst (products_batch now B s) ! i)
       \<and> supplier_id (fst (products_batch now B s) ! i) \<le> 6000
       \<and> (orphaned (supplier_id (fst (products_batch now B s) ! i))
            \<longleftrightarrow> 5001 \<le> supplier_id (fst (products_batch now B s) ! i)
                \<and> supplier_id (fst (products_batch now B s) ! i) \<le> 6000)
       \<and> (\<not> orphaned (supplier_id (fst (products_batch now B s) ! i))
            \<longleftrightarrow> 1 \<le> supplier_id (fst (products_batch now B s) ! i)
                \<and> supplier_id (fst (products_batch now B s) ! i) \<le> 5000)
       \<and> (orphaned (supplier_id (fst (products_batch now B s) ! i))
            \<longleftrightarrow> 5000 \<le> supplier_draw i s mod 6000)
       \<and> (\<lambda>k. supplier_id (fst (products_batch now B (s\<lparr>rnd := (rnd s)(7 * i + 5 := k)\<rparr>)) ! i))
             ` {0..<6000} = {1..6000}
       \<and> card {k \<in> {0..<6000}.
                 orphaned (supplier_id
                   (fst (products_batch now B (s\<lparr>rnd := (rnd s)(7 * i + 5 := k)\<rparr>)) ! i))}
           = 1000
       \<and> real (card {k \<in> {0..<6000}.
                 orphaned (supplier_id
                   (fst (products_batch now B (s\<lparr>rnd := (rnd s)(7 * i + 5 := k)\<rparr>)) ! i))})
             / 6000 = 1000 / 6000
       \<and> (\<forall>suppliers s'. suppliers_data s0 = Inr (suppliers, s') \<longrightarrow> length suppliers = 5000)"
proof -
  define sid where "sid = supplier_id (fst (products_batch now B s) ! i)"
  define raw where "raw = supplier_draw i s"
  have v: "sid = randint_value 1 6000 raw"
    unfolding sid_def raw_def using assms by (rule products_batch_supplier_draw)
  then have r: "1 \<le> sid" "sid \<le> 6000"
    using randint_value_range [of 1 6000 raw] by simp_all
  have o: "orphaned sid \<longleftrightarrow> 5000 \<le> raw mod 6000"
    by (auto simp: v orphaned_def randint_value_def)
  have k: "supplier_id (fst (products_batch now B (s\<lparr>rnd := (rnd s)(7 * i + 5 := k)\<rparr>)) ! i)
      = randint_value 1 6000 k" for k
    using products_batch_supplier_draw [OF assms, of now "s\<lparr>rnd := (rnd s)(7 * i + 5 := k)\<rparr>"]
    by (simp add: supplier_draw_def)
  have img: "(\<lambda>k. supplier_id (fst (products_batch now B (s\<lparr>rnd := (rnd s)(7 * i + 5 := k)\<rparr>)) ! i))
             ` {0..<6000} = {1..6000}"
    by (simp only: k randint_6000_image)
  have cnt: "card {k \<in> {0..<6000}.
                 orphaned (supplier_id
                   (fst (products_batch now B (s\<lparr>rnd := (rnd s)(7 * i + 5 := k)\<rparr>)) ! i))}
           = 1000"
    by (simp only: k orphan_count)
  have sup: "\<forall>suppliers s'. suppliers_data s0 = Inr (suppliers, s') \<longrightarrow> length suppliers = 5000"
    using suppliers_data_length [of s0] by blast
  have rng: "(orphaned sid \<longleftrightarrow> 5001 \<le> sid \<and> sid \<le> 6000)"
    "(\<not> orphaned sid \<longleftrightarrow> 1 \<le> sid \<and> sid \<le> 5000)"
    using r by (auto simp: orphaned_def)
  have prob: "real (card {k \<in> {0..<6000}.
                 orphaned (supplier_id
                   (fst (products_batch now B (s\<lparr>rnd := (rnd s)(7 * i + 5 := k)\<rparr>)) ! i))})
             / 6000 = 1000 / 6000"
    by (simp only: cnt)
  show ?thesis
    unfolding sid_def [symmetric] raw_def [symmetric]
    by (insert v r rng o img cnt prob sup) (intro conjI; assumption)
qed

theorem supplier_id_in_range_witness:
  "(0::nat) < nat 1
   \<and> supplier_id (fst (products_batch 0 1 (steady 5999 [] 0)) ! 0) = 6000
   \<and> orphaned (supplier_id (fst (products_batch 0 1 (steady 5999 [] 0)) ! 0))
   \<and> (\<exists>suppliers. suppliers_data (steady 0 [] 0) = Inr (suppliers, steady 0 [] 0)
          \<and> length suppliers = 5000)"
proof -
  have h: "(0::nat) < nat 1" by simp
  obtain suppliers where sd: "suppliers_data (steady 0 [] 0) = Inr (suppliers, steady 0 [] 0)"
    using steady_suppliers_data by blast
  have d: "randint_value 1 6000 (supplier_draw 0 (steady 5999 [] 0)) = 6000"
    by (simp add: supplier_draw_def randint_value_def)
  from supplier_id_in_range [OF h, of 0 "steady 5999 [] 0" "steady 0 [] 0"] h sd d
  show ?thesis by (simp add: orphaned_def)
qed

text \<open>
  C9, as amended. The price of a product row lies in \<open>(-1000, -10]\<close> when the price
  defect fires and in \<open>[5, 2000)\<close> otherwise: the lower end of each \<open>uniform\<close> draw is
  attained when \<open>random()\<close> returns 0. The price is never zero, never strictly between
  -10 and 5, and negative exactly when the price defect fires. The defect fires when
  \<open>random()\<close> is below 0.005: of the \<open>2^53\<close> equally likely values of the draw, a share
  within \<open>2^-53\<close> of 0.005.
\<close>
theorem unit_price_range:
  assumes "i < nat B"
  shows "let row = fst (products_batch now B s) ! i;
             fired = price_defect (snd (products_loop now i s))
         in (fired \<longrightarrow> - 1000 < unit_price row \<and> unit_price row \<le> - 10)
          \<and> (\<not> fired \<longrightarrow> 5 \<le> unit_price row \<and> unit_price row < 2000)
          \<and> unit_price row \<noteq> 0
          \<and> \<not> (- 10 < unit_price row \<and> unit_price row < 5)
          \<and> (unit_price row < 0 \<longleftrightarrow> fired)
          \<and> \<bar>real (card {raw \<in> {0..<2 ^ 53}. random_value raw < 0.005}) / 2 ^ 53 - 0.005\<bar>
              < 1 / 2 ^ 53"
proof -
  define s' where "s' = snd (products_loop now i s)"
  have "fst (products_batch now B s) ! i = fst (product_row now i s')"
    using assms by (simp add: products_batch_def products_loop_nth s'_def)
  then have "unit_price (fst (products_batch now B s) ! i) = fst (gen_unit_price (snd (random_random s')))"
    by (simp add: product_row_price)
  moreover have "price_defect s' = (fst (random_random (snd (random_random s'))) < 0.005)"
    by (simp add: price_defect_def)
  ultimately show ?thesis
    using gen_unit_price_range [of "snd (random_random s')"] defect_probabilities(2)
    unfolding s'_def Let_def by auto
qed

theorem unit_price_range_witness:
  "(0::nat) < nat 1 \<and> \<not> price_defect (steady (2 ^ 52) [] 0)
   \<and> 5 \<le> unit_price (fst (products_batch 0 1 (steady (2 ^ 52) [] 0)) ! 0)
   \<and> unit_price (fst (products_batch 0 1 (steady (2 ^ 52) [] 0)) ! 0) < 2000"
proof -
  have h: "(0::nat) < nat 1" by simp
  have nd: "\<not> price_defect (steady (2 ^ 52) [] 0)"
    by (simp add: price_defect_def)
  from unit_price_range [OF h, of 0 "steady (2 ^ 52) [] 0"] nd h
  show ?thesis by (simp add: Let_def)
qed

text \<open>
  The intervals are not open: a draw of 0 behind \<open>uniform\<close> gives the price 5 without
  the defect and the price -10 with it.
\<close>

theorem unit_price_open_interval_counterexample:
  "\<not> price_defect \<lparr>rnd = tape_of 0 [2 ^ 52, 2 ^ 52], fake_text = tape_of [] [], fake_num = tape_of 0 []\<rparr>
   \<and> unit_price (fst (products_batch 0 1
        \<lparr>rnd = tape_of 0 [2 ^ 52, 2 ^ 52], fake_text = tape_of [] [], fake_num = tape_of 0 []\<rparr>) ! 0)
     = 5
   \<and> price_defect \<lparr>rnd = tape_of 0 [2 ^ 52], fake_text = tape_of [] [], fake_num = tape_of 0 []\<rparr>
   \<and> unit_price (fst (products_batch 0 1
        \<lparr>rnd = tape_of 0 [2 ^ 52], fake_text = tape_of [] [], fake_num = tape_of 0 []\<rparr>) ! 0)
     = - 10"
  by (simp add: price_defect_def products_batch_def product_row_price case_prod_beta
      random_random_def random_value_def gen_unit_price_def random_uniform_def)

section \<open>Customer emails\<close>

lemma customers_loop_length: "length (fst (customers_loop now n s)) = n"
  by (induction n) (simp_all add: case_prod_beta)

lemma customers_loop_nth:
  "i < n \<Longrightarrow> fst (customers_loop now n s) ! i = fst (customer_row now (snd (customers_loop now i s)))"
proof (induction n)
  case 0
  then show ?case by simp
next
  case (Suc n)
  show ?case
  proof (cases "i = n")
    case True
    then show ?thesis
      by (simp add: nth_append case_prod_beta customers_loop_length)
  next
    case False
    with Suc.prems have "i < n" by simp
    then show ?thesis
      using Suc.IH
      by (simp add: nth_append case_prod_beta customers_loop_length)
  qed
qed

lemma customer_row_name_email:
  "customer_name (fst (customer_row now s)) = fst (fst (gen_name_email s))"
  "email (fst (customer_row now s)) = snd (fst (gen_name_email s))"
  by (simp_all add: customer_row_def case_prod_beta)

lemma gen_name_email_normal:
  assumes "\<not> customer_name_defect s" and "2 \<le> length (str_split (str_lower (drawn_name s)))"
    and "\<not> email_defect s"
  shows "fst (gen_name_email s) =
     (Some (drawn_name s),
      hd (str_split (str_lower (drawn_name s))) @ ''.'' @ last (str_split (str_lower (drawn_name s)))
        @ ''@'' @ drawn_domain s)"
  using assms
  by (simp add: gen_name_email_def customer_name_defect_def drawn_name_def email_defect_def
      drawn_domain_def case_prod_beta Let_def)

lemma choice_value_in_set: "xs \<noteq> [] \<Longrightarrow> choice_value xs raw \<in> set xs"
  by (simp add: choice_value_def)

lemma choice_value_uniform:
  assumes "distinct xs" and "d \<in> set xs"
  shows "card {raw \<in> {0..<length xs}. choice_value xs raw = d} = 1"
proof -
  from assms(2) obtain k where k: "k < length xs" "xs ! k = d"
    by (auto simp: in_set_conv_nth)
  have "{raw \<in> {0..<length xs}. choice_value xs raw = d} = {k}"
    using k assms(1) by (auto simp: choice_value_def nth_eq_iff_index_eq)
  then show ?thesis by simp
qed

lemma EMAIL_DOMAINS_facts: "length EMAIL_DOMAINS = 6" "distinct EMAIL_DOMAINS" "EMAIL_DOMAINS \<noteq> []"
  by (simp_all add: EMAIL_DOMAINS_def)

lemma split_john_smith:
  "str_split (str_lower ''john smith'') = [''john'', ''smith'']"
  "str_split (str_lower ''John Smith'') = [''john'', ''smith'']"
  "str_split (str_lower (''Ann'' @ [CHR 0xA0] @ ''Lee Smith'')) = [''ann'', ''lee'', ''smith'']"
  by code_simp+

text \<open>
  C2. In a batch of \<open>B\<close> customer rows, take the row at index \<open>i\<close> for which the name
  defect does not fire, the drawn full name has at least two words once lower-cased and
  split on whitespace, and the email defect does not fire. Its name is the drawn name
  and its email is the first word, a dot, the last word, \<open>@\<close> and the drawn domain. The
  domain is one of the 6 providers, each of which is selected by exactly one of the 6
  equally likely residues of the draw. The names \<open>john smith\<close> and \<open>John Smith\<close> with
  the domain \<open>gmail.com\<close> give \<open>john.smith@gmail.com\<close>, and the name \<open>Ann Lee Smith\<close>
  written with a no-break space after \<open>Ann\<close> gives \<open>ann.smith@gmail.com\<close>.
\<close>
theorem email_from_name:
  assumes "i < nat B"
    and "\<not> customer_name_defect (snd (customers_loop now i s))"
    and "2 \<le> length (str_split (str_lower (drawn_name (snd (customers_loop now i s)))))"
    and "\<not> email_defect (snd (customers_loop now i s))"
  shows "let row = fst (customers_batch now B s) ! i;
             name = drawn_name (snd (customers_loop now i s));
             domain = drawn_domain (snd (customers_loop now i s));
             name_parts = str_split (str_lower name)
         in customer_name row = Some name
          \<and> email row = hd name_parts @ ''.'' @ last name_parts @ ''@'' @ domain
          \<and> domain \<in> set EMAIL_DOMAINS
          \<and> length EMAIL_DOMAINS = 6
          \<and> (\<forall>d \<in> set EMAIL_DOMAINS. card {raw \<in> {0..<6}. choice_value EMAIL_DOMAINS raw = d} = 1)
          \<and> (name = ''john smith'' \<and> domain = ''gmail.com'' \<longrightarrow> email row = ''john.smith@gmail.com'')
          \<and> (name = ''John Smith'' \<and> domain = ''gmail.com'' \<longrightarrow> email row = ''john.smith@gmail.com'')
          \<and> (name = ''Ann'' @ [CHR 0xA0] @ ''Lee Smith'' \<and> domain = ''gmail.com''
                \<longrightarrow> email row = ''ann.smith@gmail.com'')"
proof -
  define s' where "s' = snd (customers_loop now i s)"
  have row: "fst (customers_batch now B s) ! i = fst (customer_row now s')"
    using assms(1) by (simp add: customers_batch_def customers_loop_nth s'_def)
  have ne: "fst (gen_name_email s') =
     (Some (drawn_name s'),
      hd (str_split (str_lower (drawn_name s'))) @ ''.'' @ last (str_split (str_lower (drawn_name s')))
        @ ''@'' @ drawn_domain s')"
    using assms(2-4) unfolding s'_def by (rule gen_name_email_normal)
  have dom: "drawn_domain s' \<in> set EMAIL_DOMAINS"
    unfolding drawn_domain_def random_choice_def
    using choice_value_in_set [OF EMAIL_DOMAINS_facts(3)] by simp
  have uni: "\<forall>d \<in> set EMAIL_DOMAINS. card {raw \<in> {0..<6}. choice_value EMAIL_DOMAINS raw = d} = 1"
    using choice_value_uniform [OF EMAIL_DOMAINS_facts(2)] by (simp add: EMAIL_DOMAINS_facts(1))
  have js: "drawn_name s' = ''john smith'' \<and> drawn_domain s' = ''gmail.com''
      \<longrightarrow> email (fst (customer_row now s')) = ''john.smith@gmail.com''"
    using ne by (auto simp: customer_row_name_email split_john_smith(1))
  have cap: "drawn_name s' = ''John Smith'' \<and> drawn_domain s' = ''gmail.com''
      \<longrightarrow> email (fst (customer_row now s')) = ''john.smith@gmail.com''"
    using ne by (auto simp: customer_row_name_email split_john_smith(2))
  have nb: "drawn_name s' = ''Ann'' @ [CHR 0xA0] @ ''Lee Smith'' \<and> drawn_domain s' = ''gmail.com''
      \<longrightarrow> email (fst (customer_row now s')) = ''ann.smith@gmail.com''"
    using ne split_john_smith(3) by (auto simp: customer_row_name_email)
  show ?thesis
    unfolding Let_def s'_def [symmetric] row
    using ne dom uni js cap nb by (simp add: customer_row_name_email EMAIL_DOMAINS_facts(1))
qed

theorem email_from_name_witness:
  "email (fst (customers_batch 0 1 (steady 600000000000000 ''John Smith'' 0)) ! 0)
     = ''john.smith@gmail.com''
   \<and> customer_name (fst (customers_batch 0 1 (steady 600000000000000 ''John Smith'' 0)) ! 0)
     = Some ''John Smith''
   \<and> card {raw \<in> {0..<6}. choice_value EMAIL_DOMAINS raw = ''gmail.com''} = 1"
proof -
  let ?s = "steady 600000000000000 ''John Smith'' 0"
  have h1: "(0::nat) < nat 1" by simp
  have s0: "snd (customers_loop 0 0 ?s) = ?s" by simp
  have h2: "\<not> customer_name_defect (snd (customers_loop 0 0 ?s))"
    by (simp add: customer_name_defect_def)
  have n: "drawn_name ?s = ''John Smith''"
    by (simp add: drawn_name_def fake_name_def)
  have h3: "2 \<le> length (str_split (str_lower (drawn_name (snd (customers_loop 0 0 ?s)))))"
    by (simp add: drawn_name_def fake_name_def split_john_smith(2))
  have h4: "\<not> email_defect (snd (customers_loop 0 0 ?s))"
    by (simp add: email_defect_def fake_name_def)
  have d: "drawn_domain ?s = ''gmail.com''"
    by (simp add: drawn_domain_def fake_name_def choice_value_def EMAIL_DOMAINS_def)
  have g: "''gmail.com'' \<in> set EMAIL_DOMAINS" by (simp add: EMAIL_DOMAINS_def)
  from email_from_name [OF h1 h2 h3 h4] n d g
  show ?thesis by (auto simp: Let_def split_john_smith(2))
qed

section \<open>The loading phases\<close>

lemma customers_batch_length: "length (fst (customers_batch now B s)) = nat B"
  by (simp add: customers_batch_def customers_loop_length)

lemma products_batch_length: "length (fst (products_batch now B s)) = nat B"
  by (simp add: products_batch_def products_loop_length)

lemma customer_inserts_append:
  "customer_inserts (xs @ ys) = customer_inserts xs @ customer_inserts ys"
  by (induction xs rule: customer_inserts.induct) simp_all

lemma product_inserts_append:
  "product_inserts (xs @ ys) = product_inserts xs @ product_inserts ys"
  by (induction xs rule: product_inserts.induct) simp_all

lemma customers_batches_gens:
  "gens (customers_batches now B n st) = customers_gens now B n (gens st)"
  unfolding customers_gens_def
  by (induction n) (simp_all add: case_prod_beta Let_def)

lemma products_batches_gens:
  "gens (products_batches now B n st) = products_gens now B n (gens st)"
  unfolding products_gens_def
  by (induction n) (simp_all add: case_prod_beta Let_def)

lemma customers_batches_total:
  "total_inserted (customers_batches now B n st) = total_inserted st + int n * int (nat B)"
  by (induction n) (simp_all add: case_prod_beta Let_def customers_batch_length algebra_simps)

lemma products_batches_total:
  "total_inserted (products_batches now B n st) = total_inserted st + int n * int (nat B)"
  by (induction n) (simp_all add: case_prod_beta Let_def products_batch_length algebra_simps)

lemma customers_batches_conn:
  "conn (customers_batches now B n st) =
   conn st @ concat (map (\<lambda>k. InsertCustomers (fst (customers_batch now B (customers_gens now B k (gens st))))
                            # (if (int k + 1) mod 10 = 0 then [Commit] else []))
                         [0..<n])"
  by (induction n)
    (simp_all add: case_prod_beta Let_def commit_periodically_def COMMIT_EVERY_N_BATCHES_def
      customers_batches_gens)

lemma products_batches_conn:
  "conn (products_batches now B n st) =
   conn st @ concat (map (\<lambda>k. InsertProducts (fst (products_batch now B (products_gens now B k (gens st))))
                            # (if (int k + 1) mod 10 = 0 then [Commit] else []))
                         [0..<n])"
  by (induction n)
    (simp_all add: case_prod_beta Let_def commit_periodically_def COMMIT_EVERY_N_BATCHES_def
      products_batches_gens)

lemma load_customers_conn:
  assumes "BATCH_SIZE cfg \<noteq> 0"
  shows "\<exists>st. load_customers cfg now c s = Inr st
     \<and> conn st = c @ spec_loading_calls
          (\<lambda>k. InsertCustomers (fst (customers_batch now (BATCH_SIZE cfg)
                                       (customers_gens now (BATCH_SIZE cfg) k s))))
          (nat (CUSTOMERS_TOTAL cfg div BATCH_SIZE cfg))
     \<and> total_inserted st = int (nat (CUSTOMERS_TOTAL cfg div BATCH_SIZE cfg)) * int (nat (BATCH_SIZE cfg))
     \<and> gens st = customers_gens now (BATCH_SIZE cfg) (nat (CUSTOMERS_TOTAL cfg div BATCH_SIZE cfg)) s"
  using assms
  by (simp add: load_customers_def floordiv_def Let_def spec_loading_calls_def customers_batches_conn
      customers_batches_total customers_batches_gens)

lemma load_products_conn:
  assumes "BATCH_SIZE cfg \<noteq> 0"
  shows "\<exists>st. load_products cfg now c s = Inr st
     \<and> conn st = c @ spec_loading_calls
          (\<lambda>k. InsertProducts (fst (products_batch now (BATCH_SIZE cfg)
                                      (products_gens now (BATCH_SIZE cfg) k s))))
          (nat (PRODUCTS_TOTAL cfg div BATCH_SIZE cfg))
     \<and> total_inserted st = int (nat (PRODUCTS_TOTAL cfg div BATCH_SIZE cfg)) * int (nat (BATCH_SIZE cfg))
     \<and> gens st = products_gens now (BATCH_SIZE cfg) (nat (PRODUCTS_TOTAL cfg div BATCH_SIZE cfg)) s"
  using assms
  by (simp add: load_products_def floordiv_def Let_def spec_loading_calls_def products_batches_conn
      products_batches_total products_batches_gens)

lemma spec_loading_calls_commits:
  assumes "\<And>k. submit k \<noteq> Commit"
  shows "count_commits (spec_loading_calls submit n) = n div 10 + 1"
proof -
  have "length (filter (\<lambda>e. e = Commit)
          (concat (map (\<lambda>k. submit k # (if (int k + 1) mod 10 = 0 then [Commit] else [])) [0..<n])))
        = n div 10"
  proof (induction n)
    case 0
    then show ?case by simp
  next
    case (Suc n)
    have "((int n + 1) mod 10 = 0) = (Suc n mod 10 = 0)"
      by presburger
    then show ?case using Suc assms by (simp add: div_Suc)
  qed
  then show ?thesis by (simp add: spec_loading_calls_def count_commits_def)
qed

lemma spec_loading_calls_customer_inserts:
  "customer_inserts (spec_loading_calls (\<lambda>k. InsertCustomers (f k)) n) = map f [0..<n]"
proof -
  have "customer_inserts
          (concat (map (\<lambda>k. InsertCustomers (f k) # (if (int k + 1) mod 10 = 0 then [Commit] else []))
                       [0..<n])) = map f [0..<n]"
    by (induction n) (simp_all add: customer_inserts_append)
  then show ?thesis by (simp add: spec_loading_calls_def customer_inserts_append)
qed

lemma spec_loading_calls_product_inserts:
  "product_inserts (spec_loading_calls (\<lambda>k. InsertProducts (f k)) n) = map f [0..<n]"
proof -
  have "product_inserts
          (concat (map (\<lambda>k. InsertProducts (f k) # (if (int k + 1) mod 10 = 0 then [Commit] else []))
                       [0..<n])) = map f [0..<n]"
    by (induction n) (simp_all add: product_inserts_append)
  then show ?thesis by (simp add: spec_loading_calls_def product_inserts_append)
qed

lemma length_concat_const:
  "(\<And>k. length (f k) = m) \<Longrightarrow> length (concat (map f [0..<n])) = n * m"
  by (induction n) simp_all

lemma load_customers_rows:
  assumes "0 \<le> CUSTOMERS_TOTAL cfg" and "0 < BATCH_SIZE cfg"
  shows "\<exists>st. load_customers cfg now c s = Inr st
     \<and> conn st = c @ spec_loading_calls
          (\<lambda>k. InsertCustomers (fst (customers_batch now (BATCH_SIZE cfg)
                                       (customers_gens now (BATCH_SIZE cfg) k s))))
          (nat (CUSTOMERS_TOTAL cfg div BATCH_SIZE cfg))
     \<and> length (customer_inserts (drop (length c) (conn st)))
         = nat (CUSTOMERS_TOTAL cfg div BATCH_SIZE cfg)
     \<and> (\<forall>batch \<in> set (customer_inserts (drop (length c) (conn st))).
           int (length batch) = BATCH_SIZE cfg)
     \<and> int (length (concat (customer_inserts (drop (length c) (conn st)))))
         = (CUSTOMERS_TOTAL cfg div BATCH_SIZE cfg) * BATCH_SIZE cfg
     \<and> total_inserted st = (CUSTOMERS_TOTAL cfg div BATCH_SIZE cfg) * BATCH_SIZE cfg
     \<and> int (count_commits (drop (length c) (conn st)))
         = (CUSTOMERS_TOTAL cfg div BATCH_SIZE cfg) div 10 + 1"
proof -
  define B where "B = BATCH_SIZE cfg"
  define T where "T = nat (CUSTOMERS_TOTAL cfg div B)"
  define f where "f = (\<lambda>k. fst (customers_batch now B (customers_gens now B k s)))"
  have B: "B \<noteq> 0" "0 < B" using assms(2) by (simp_all add: B_def)
  have T: "int T = CUSTOMERS_TOTAL cfg div B"
    using assms(1) B(2) by (simp add: T_def pos_imp_zdiv_nonneg_iff)
  from load_customers_conn [of cfg now c s] B(1) obtain st where
    st: "load_customers cfg now c s = Inr st"
      "conn st = c @ spec_loading_calls (\<lambda>k. InsertCustomers (f k)) T"
      "total_inserted st = int T * int (nat B)"
    unfolding B_def T_def f_def by blast
  have len: "length (f k) = nat B" for k
    by (simp add: f_def customers_batch_length)
  have ins: "customer_inserts (drop (length c) (conn st)) = map f [0..<T]"
    by (simp add: st(2) spec_loading_calls_customer_inserts)
  have "length (concat (map f [0..<T])) = T * nat B"
    using len by (rule length_concat_const)
  then have cat: "int (length (concat (map f [0..<T]))) = int T * B"
    using B(2) by simp
  have com: "count_commits (drop (length c) (conn st)) = T div 10 + 1"
    by (simp add: st(2) spec_loading_calls_commits)
  have "int (T div 10 + 1) = int T div 10 + 1"
    by (simp add: zdiv_int)
  with com have com': "int (count_commits (drop (length c) (conn st))) = int T div 10 + 1"
    by simp
  have all: "\<forall>batch \<in> set (map f [0..<T]). int (length batch) = B"
    using len B(2) by auto
  show ?thesis
    using st ins cat com' all T B(2)
    unfolding B_def [symmetric] T_def [symmetric]
    by (simp add: f_def)
qed


lemma load_products_rows:
  assumes "0 \<le> PRODUCTS_TOTAL cfg" and "0 < BATCH_SIZE cfg"
  shows "\<exists>st. load_products cfg now c s = Inr st
     \<and> conn st = c @ spec_loading_calls
          (\<lambda>k. InsertProducts (fst (products_batch now (BATCH_SIZE cfg)
                                       (products_gens now (BATCH_SIZE cfg) k s))))
          (nat (PRODUCTS_TOTAL cfg div BATCH_SIZE cfg))
     \<and> length (product_inserts (drop (length c) (conn st)))
         = nat (PRODUCTS_TOTAL cfg div BATCH_SIZE cfg)
     \<and> (\<forall>batch \<in> set (product_inserts (drop (length c) (conn st))).
           int (length batch) = BATCH_SIZE cfg)
     \<and> int (length (concat (product_inserts (drop (length c) (conn st)))))
         = (PRODUCTS_TOTAL cfg div BATCH_SIZE cfg) * BATCH_SIZE cfg
     \<and> total_inserted st = (PRODUCTS_TOTAL cfg div BATCH_SIZE cfg) * BATCH_SIZE cfg
     \<and> int (count_commits (drop (length c) (conn st)))
         = (PRODUCTS_TOTAL cfg div BATCH_SIZE cfg) div 10 + 1"
proof -
  define B where "B = BATCH_SIZE cfg"
  define T where "T = nat (PRODUCTS_TOTAL cfg div B)"
  define f where "f = (\<lambda>k. fst (products_batch now B (products_gens now B k s)))"
  have B: "B \<noteq> 0" "0 < B" using assms(2) by (simp_all add: B_def)
  have T: "int T = PRODUCTS_TOTAL cfg div B"
    using assms(1) B(2) by (simp add: T_def pos_imp_zdiv_nonneg_iff)
  from load_products_conn [of cfg now c s] B(1) obtain st where
    st: "load_products cfg now c s = Inr st"
      "conn st = c @ spec_loading_calls (\<lambda>k. InsertProducts (f k)) T"
      "total_inserted st = int T * int (nat B)"
    unfolding B_def T_def f_def by blast
  have len: "length (f k) = nat B" for k
    by (simp add: f_def products_batch_length)
  have ins: "product_inserts (drop (length c) (conn st)) = map f [0..<T]"
    by (simp add: st(2) spec_loading_calls_product_inserts)
  have "length (concat (map f [0..<T])) = T * nat B"
    using len by (rule length_concat_const)
  then have cat: "int (length (concat (map f [0..<T]))) = int T * B"
    using B(2) by simp
  have com: "count_commits (drop (length c) (conn st)) = T div 10 + 1"
    by (simp add: st(2) spec_loading_calls_commits)
  have "int (T div 10 + 1) = int T div 10 + 1"
    by (simp add: zdiv_int)
  with com have com': "int (count_commits (drop (length c) (conn st))) = int T div 10 + 1"
    by simp
  have all: "\<forall>batch \<in> set (map f [0..<T]). int (length batch) = B"
    using len B(2) by auto
  show ?thesis
    using st ins cat com' all T B(2)
    unfolding B_def [symmetric] T_def [symmetric]
    by (simp add: f_def)
qed

text \<open>
  C1. For a total \<open>N \<ge> 0\<close> and a batch size \<open>B > 0\<close>, the loading phase of Customers
  and the loading phase of Products each return normally, submit exactly \<open>N div B\<close>
  batches of exactly \<open>B\<close> rows each, and so insert \<open>(N div B) * B\<close> rows, which is also
  the final value of the counter \<open>total_inserted\<close>; the \<open>N mod B\<close> remaining rows are
  never generated. With \<open>N = 10005\<close> and \<open>B = 10000\<close> exactly 10000 customer rows are
  inserted.
\<close>

theorem batches_floor_division:
  assumes "0 \<le> CUSTOMERS_TOTAL cfg" and "0 \<le> PRODUCTS_TOTAL cfg" and "0 < BATCH_SIZE cfg"
  shows "(\<exists>st. load_customers cfg now c s = Inr st
            \<and> length (customer_inserts (drop (length c) (conn st)))
                = nat (CUSTOMERS_TOTAL cfg div BATCH_SIZE cfg)
            \<and> (\<forall>batch \<in> set (customer_inserts (drop (length c) (conn st))).
                  int (length batch) = BATCH_SIZE cfg)
            \<and> int (length (concat (customer_inserts (drop (length c) (conn st)))))
                = (CUSTOMERS_TOTAL cfg div BATCH_SIZE cfg) * BATCH_SIZE cfg
            \<and> total_inserted st = (CUSTOMERS_TOTAL cfg div BATCH_SIZE cfg) * BATCH_SIZE cfg
            \<and> CUSTOMERS_TOTAL cfg - total_inserted st = CUSTOMERS_TOTAL cfg mod BATCH_SIZE cfg
            \<and> (CUSTOMERS_TOTAL cfg = 10005 \<and> BATCH_SIZE cfg = 10000
                 \<longrightarrow> length (concat (customer_inserts (drop (length c) (conn st)))) = 10000))
       \<and> (\<exists>st. load_products cfg now c s = Inr st
            \<and> length (product_inserts (drop (length c) (conn st)))
                = nat (PRODUCTS_TOTAL cfg div BATCH_SIZE cfg)
            \<and> (\<forall>batch \<in> set (product_inserts (drop (length c) (conn st))).
                  int (length batch) = BATCH_SIZE cfg)
            \<and> int (length (concat (product_inserts (drop (length c) (conn st)))))
                = (PRODUCTS_TOTAL cfg div BATCH_SIZE cfg) * BATCH_SIZE cfg
            \<and> total_inserted st = (PRODUCTS_TOTAL cfg div BATCH_SIZE cfg) * BATCH_SIZE cfg
            \<and> PRODUCTS_TOTAL cfg - total_inserted st = PRODUCTS_TOTAL cfg mod BATCH_SIZE cfg)"
proof -
  have rem: "N - (N div B) * B = N mod B" for N B :: int
    by (simp add: minus_div_mult_eq_mod)
  from load_customers_rows [OF assms(1,3), of now c s] obtain st where
    st: "load_customers cfg now c s = Inr st"
      "length (customer_inserts (drop (length c) (conn st)))
         = nat (CUSTOMERS_TOTAL cfg div BATCH_SIZE cfg)"
      "\<forall>batch \<in> set (customer_inserts (drop (length c) (conn st))).
           int (length batch) = BATCH_SIZE cfg"
      "int (length (concat (customer_inserts (drop (length c) (conn st)))))
         = (CUSTOMERS_TOTAL cfg div BATCH_SIZE cfg) * BATCH_SIZE cfg"
      "total_inserted st = (CUSTOMERS_TOTAL cfg div BATCH_SIZE cfg) * BATCH_SIZE cfg"
    by blast
  have ex: "CUSTOMERS_TOTAL cfg = 10005 \<and> BATCH_SIZE cfg = 10000
      \<longrightarrow> length (concat (customer_inserts (drop (length c) (conn st)))) = 10000"
    using st(4) by auto
  from load_products_rows [OF assms(2,3), of now c s] obtain st' where
    st': "load_products cfg now c s = Inr st'"
      "length (product_inserts (drop (length c) (conn st')))
         = nat (PRODUCTS_TOTAL cfg div BATCH_SIZE cfg)"
      "\<forall>batch \<in> set (product_inserts (drop (length c) (conn st'))).
           int (length batch) = BATCH_SIZE cfg"
      "int (length (concat (product_inserts (drop (length c) (conn st')))))
         = (PRODUCTS_TOTAL cfg div BATCH_SIZE cfg) * BATCH_SIZE cfg"
      "total_inserted st' = (PRODUCTS_TOTAL cfg div BATCH_SIZE cfg) * BATCH_SIZE cfg"
    by blast
  show ?thesis
  proof (intro conjI exI)
    show "load_customers cfg now c s = Inr st" by (rule st(1))
    show "load_products cfg now c s = Inr st'" by (rule st'(1))
    show "CUSTOMERS_TOTAL cfg - total_inserted st = CUSTOMERS_TOTAL cfg mod BATCH_SIZE cfg"
      by (simp add: st(5) rem)
    show "PRODUCTS_TOTAL cfg - total_inserted st' = PRODUCTS_TOTAL cfg mod BATCH_SIZE cfg"
      by (simp add: st'(5) rem)
  qed (use st st' ex in blast)+
qed

theorem batches_floor_division_witness:
  "\<exists>st. load_customers \<lparr>BATCH_SIZE = 10000, CUSTOMERS_TOTAL = 10005, PRODUCTS_TOTAL = 150000\<rparr>
           0 [] (steady 0 [] 0) = Inr st
        \<and> length (customer_inserts (conn st)) = 1
        \<and> length (concat (customer_inserts (conn st))) = 10000
        \<and> total_inserted st = 10000"
proof -
  let ?cfg = "\<lparr>BATCH_SIZE = 10000, CUSTOMERS_TOTAL = 10005, PRODUCTS_TOTAL = 150000\<rparr>"
  have h: "0 \<le> CUSTOMERS_TOTAL ?cfg" "0 \<le> PRODUCTS_TOTAL ?cfg" "0 < BATCH_SIZE ?cfg"
    by simp_all
  from batches_floor_division [OF h, of 0 "[]" "steady 0 [] 0"]
  show ?thesis by auto
qed

text \<open>
  C6. \<open>commit_periodically\<close> commits after batch \<open>batch_num\<close> exactly when
  \<open>batch_num + 1\<close> is a multiple of 10. For a total \<open>N \<ge> 0\<close> and a batch size \<open>B > 0\<close>,
  the calls of a loading phase are those of \<open>spec_loading_calls\<close> for \<open>N div B\<close> batches: each
  batch, a commit after it when its number plus one is a multiple of 10, and one last
  commit. The phase commits \<open>(N div B) div 10 + 1\<close> times. With \<open>N = B = 10000\<close> there is
  one batch of 10000 rows and one commit.
\<close>

theorem commits_periodic_and_final:
  assumes "0 \<le> CUSTOMERS_TOTAL cfg" and "0 \<le> PRODUCTS_TOTAL cfg" and "0 < BATCH_SIZE cfg"
  shows "(commit_periodically es batch_num inserted label
            = (if (batch_num + 1) mod 10 = 0 then es @ [Commit] else es))
       \<and> (\<exists>st. load_customers cfg now c s = Inr st
            \<and> conn st = c @ spec_loading_calls
                 (\<lambda>k. InsertCustomers (fst (customers_batch now (BATCH_SIZE cfg)
                                              (customers_gens now (BATCH_SIZE cfg) k s))))
                 (nat (CUSTOMERS_TOTAL cfg div BATCH_SIZE cfg))
            \<and> int (count_commits (drop (length c) (conn st)))
                = (CUSTOMERS_TOTAL cfg div BATCH_SIZE cfg) div 10 + 1
            \<and> (CUSTOMERS_TOTAL cfg = 10000 \<and> BATCH_SIZE cfg = 10000
                 \<longrightarrow> length (customer_inserts (drop (length c) (conn st))) = 1
                   \<and> length (concat (customer_inserts (drop (length c) (conn st)))) = 10000
                   \<and> count_commits (drop (length c) (conn st)) = 1
                   \<and> last (conn st) = Commit))
       \<and> (\<exists>st. load_products cfg now c s = Inr st
            \<and> conn st = c @ spec_loading_calls
                 (\<lambda>k. InsertProducts (fst (products_batch now (BATCH_SIZE cfg)
                                             (products_gens now (BATCH_SIZE cfg) k s))))
                 (nat (PRODUCTS_TOTAL cfg div BATCH_SIZE cfg))
            \<and> int (count_commits (drop (length c) (conn st)))
                = (PRODUCTS_TOTAL cfg div BATCH_SIZE cfg) div 10 + 1)"
proof -
  from load_customers_rows [OF assms(1,3), of now c s] obtain st where
    st: "load_customers cfg now c s = Inr st"
      "conn st = c @ spec_loading_calls
          (\<lambda>k. InsertCustomers (fst (customers_batch now (BATCH_SIZE cfg)
                                       (customers_gens now (BATCH_SIZE cfg) k s))))
          (nat (CUSTOMERS_TOTAL cfg div BATCH_SIZE cfg))"
      "length (customer_inserts (drop (length c) (conn st)))
         = nat (CUSTOMERS_TOTAL cfg div BATCH_SIZE cfg)"
      "int (length (concat (customer_inserts (drop (length c) (conn st)))))
         = (CUSTOMERS_TOTAL cfg div BATCH_SIZE cfg) * BATCH_SIZE cfg"
      "int (count_commits (drop (length c) (conn st)))
         = (CUSTOMERS_TOTAL cfg div BATCH_SIZE cfg) div 10 + 1"
    by blast
  have lastc: "last (conn st) = Commit"
    by (simp add: st(2) spec_loading_calls_def)
  have ex: "CUSTOMERS_TOTAL cfg = 10000 \<and> BATCH_SIZE cfg = 10000
      \<longrightarrow> length (customer_inserts (drop (length c) (conn st))) = 1
        \<and> length (concat (customer_inserts (drop (length c) (conn st)))) = 10000
        \<and> count_commits (drop (length c) (conn st)) = 1
        \<and> last (conn st) = Commit"
    using st(3,4,5) lastc by auto
  from load_products_rows [OF assms(2,3), of now c s] obtain st' where
    st': "load_products cfg now c s = Inr st'"
      "conn st' = c @ spec_loading_calls
          (\<lambda>k. InsertProducts (fst (products_batch now (BATCH_SIZE cfg)
                                      (products_gens now (BATCH_SIZE cfg) k s))))
          (nat (PRODUCTS_TOTAL cfg div BATCH_SIZE cfg))"
      "int (count_commits (drop (length c) (conn st')))
         = (PRODUCTS_TOTAL cfg div BATCH_SIZE cfg) div 10 + 1"
    by blast
  have cp: "commit_periodically es batch_num inserted label
            = (if (batch_num + 1) mod 10 = 0 then es @ [Commit] else es)"
    by (simp add: commit_periodically_def COMMIT_EVERY_N_BATCHES_def)
  show ?thesis
    using cp st(1,2,5) ex st' by blast
qed

theorem commits_periodic_and_final_witness:
  "\<exists>st. load_customers \<lparr>BATCH_SIZE = 10000, CUSTOMERS_TOTAL = 10000, PRODUCTS_TOTAL = 150000\<rparr>
           0 [] (steady 0 [] 0) = Inr st
        \<and> length (customer_inserts (conn st)) = 1
        \<and> count_commits (conn st) = 1
        \<and> last (conn st) = Commit"
proof -
  let ?cfg = "\<lparr>BATCH_SIZE = 10000, CUSTOMERS_TOTAL = 10000, PRODUCTS_TOTAL = 150000\<rparr>"
  have h: "0 \<le> CUSTOMERS_TOTAL ?cfg" "0 \<le> PRODUCTS_TOTAL ?cfg" "0 < BATCH_SIZE ?cfg"
    by simp_all
  from commits_periodic_and_final [OF h, of "[]" 0 0 "[]" 0 "[]" "steady 0 [] 0"]
  show ?thesis by auto
qed

section \<open>The whole run\<close>

lemma try_body_suppliers_error:
  assumes "suppliers_data s0 = Inl e"
  shows "try_body cfg now c0 s0 =
    (c0 @ [DropTable ''dbo.Categories'', CreateTable ''dbo.Categories'',
           InsertCategories categories_data, Commit,
           DropTable ''dbo.Suppliers'', CreateTable ''dbo.Suppliers''], Inl e)"
  using assms by (simp add: try_body_def)

lemma try_body_zero_batch:
  assumes "suppliers_data s0 = Inr (srows, s1)" and "BATCH_SIZE cfg = 0"
  shows "try_body cfg now c0 s0 =
    (c0 @ [DropTable ''dbo.Categories'', CreateTable ''dbo.Categories'',
           InsertCategories categories_data, Commit,
           DropTable ''dbo.Suppliers'', CreateTable ''dbo.Suppliers'',
           InsertSuppliers srows, Commit,
           DropTable ''dbo.Customers'', CreateTable ''dbo.Customers'', Commit],
     Inl ZeroDivisionError)"
  using assms by (simp add: try_body_def load_customers_def floordiv_def)

lemma try_body_success:
  assumes "suppliers_data s0 = Inr (srows, s1)" and "BATCH_SIZE cfg \<noteq> 0"
  shows "try_body cfg now c0 s0 =
    (c0 @ [DropTable ''dbo.Categories'', CreateTable ''dbo.Categories'',
           InsertCategories categories_data, Commit,
           DropTable ''dbo.Suppliers'', CreateTable ''dbo.Suppliers'',
           InsertSuppliers srows, Commit,
           DropTable ''dbo.Customers'', CreateTable ''dbo.Customers'', Commit]
        @ spec_loading_calls
            (\<lambda>k. InsertCustomers (fst (customers_batch now (BATCH_SIZE cfg)
                                         (customers_gens now (BATCH_SIZE cfg) k s1))))
            (nat (CUSTOMERS_TOTAL cfg div BATCH_SIZE cfg))
        @ [DropTable ''dbo.Products'', CreateTable ''dbo.Products'', Commit]
        @ spec_loading_calls
            (\<lambda>k. InsertProducts (fst (products_batch now (BATCH_SIZE cfg)
              (products_gens now (BATCH_SIZE cfg) k
                (customers_gens now (BATCH_SIZE cfg)
                   (nat (CUSTOMERS_TOTAL cfg div BATCH_SIZE cfg)) s1)))))
            (nat (PRODUCTS_TOTAL cfg div BATCH_SIZE cfg)),
     Inr (final_summary cfg))"
proof -
  let ?c4 = "c0 @ [DropTable ''dbo.Categories'', CreateTable ''dbo.Categories'',
           InsertCategories categories_data, Commit,
           DropTable ''dbo.Suppliers'', CreateTable ''dbo.Suppliers'',
           InsertSuppliers srows, Commit,
           DropTable ''dbo.Customers'', CreateTable ''dbo.Customers'', Commit]"
  from load_customers_conn [OF assms(2), of now ?c4 s1] obtain st where
    st: "load_customers cfg now ?c4 s1 = Inr st"
      "conn st = ?c4 @ spec_loading_calls
          (\<lambda>k. InsertCustomers (fst (customers_batch now (BATCH_SIZE cfg)
                                       (customers_gens now (BATCH_SIZE cfg) k s1))))
          (nat (CUSTOMERS_TOTAL cfg div BATCH_SIZE cfg))"
      "gens st = customers_gens now (BATCH_SIZE cfg) (nat (CUSTOMERS_TOTAL cfg div BATCH_SIZE cfg)) s1"
    by blast
  let ?c5 = "conn st @ [DropTable ''dbo.Products'', CreateTable ''dbo.Products'', Commit]"
  from load_products_conn [OF assms(2), of now ?c5 "gens st"] obtain st' where
    st': "load_products cfg now ?c5 (gens st) = Inr st'"
      "conn st' = ?c5 @ spec_loading_calls
          (\<lambda>k. InsertProducts (fst (products_batch now (BATCH_SIZE cfg)
                                      (products_gens now (BATCH_SIZE cfg) k (gens st)))))
          (nat (PRODUCTS_TOTAL cfg div BATCH_SIZE cfg))"
    by blast
  show ?thesis
    using assms(1) st(1) st'(1)
    by (simp add: try_body_def st'(2) st(2) st(3))
qed

lemma try_body_cases:
  fixes s0 :: source and cfg :: config
  assumes "\<And>e. suppliers_data s0 = Inl e \<Longrightarrow> P"
    and "\<And>srows s1. suppliers_data s0 = Inr (srows, s1) \<Longrightarrow> BATCH_SIZE cfg = 0 \<Longrightarrow> P"
    and "\<And>srows s1. suppliers_data s0 = Inr (srows, s1) \<Longrightarrow> BATCH_SIZE cfg \<noteq> 0 \<Longrightarrow> P"
  shows P
proof (cases "suppliers_data s0")
  case (Inl e)
  then show ?thesis by (rule assms(1))
next
  case (Inr p)
  then have "suppliers_data s0 = Inr (fst p, snd p)" by simp
  then show ?thesis using assms(2,3) by (cases "BATCH_SIZE cfg = 0") blast+
qed

lemma try_body_extends: "\<exists>rest. fst (try_body cfg now c0 s0) = c0 @ rest"
proof (rule try_body_cases [of s0 _ cfg])
  fix e assume "suppliers_data s0 = Inl e"
  then show ?thesis by (simp add: try_body_suppliers_error)
next
  fix srows s1 assume "suppliers_data s0 = Inr (srows, s1)" and "BATCH_SIZE cfg = 0"
  then show ?thesis by (simp add: try_body_zero_batch)
next
  fix srows s1 assume "suppliers_data s0 = Inr (srows, s1)" and "BATCH_SIZE cfg \<noteq> 0"
  then show ?thesis by (simp add: try_body_success)
qed

lemma main_no_host:
  "getenv env ''SQL_SERVER_HOST'' = None \<Longrightarrow>
   main lib cfg env now = \<lparr>db_calls = [], result = Inl (ValueError missing_host_message)\<rparr>"
  by (simp add: main_def)

lemma main_host:
  assumes "getenv env ''SQL_SERVER_HOST'' = Some h" and "h \<noteq> []"
  shows "main lib cfg env now =
    \<lparr>db_calls = fst (try_body cfg now
         [Connect (conn_string h (getenv_default env ''SQL_SERVER_DB'' ''TransactionDB_UAT''))]
         (seeded lib)) @ [CursorClose, ConnClose],
     result = snd (try_body cfg now
         [Connect (conn_string h (getenv_default env ''SQL_SERVER_DB'' ''TransactionDB_UAT''))]
         (seeded lib))\<rparr>"
  using assms by (simp add: main_def case_prod_beta Let_def)

lemma main_result_Inr:
  assumes "result (main lib cfg env now) = Inr summ"
  obtains h srows s1 where "getenv env ''SQL_SERVER_HOST'' = Some h" and "h \<noteq> []"
    and "suppliers_data (seeded lib) = Inr (srows, s1)" and "BATCH_SIZE cfg \<noteq> 0"
proof (cases "getenv env ''SQL_SERVER_HOST''")
  case None
  with assms show ?thesis by (simp add: main_no_host)
next
  case (Some h)
  show ?thesis
  proof (cases "h = []")
    case True
    with Some assms show ?thesis by (simp add: main_def)
  next
    case False
    let ?c0 = "[Connect (conn_string h (getenv_default env ''SQL_SERVER_DB'' ''TransactionDB_UAT''))]"
    from assms Some False have r: "snd (try_body cfg now ?c0 (seeded lib)) = Inr summ"
      by (simp add: main_host)
    show ?thesis
    proof (rule try_body_cases [of "seeded lib" _ cfg])
      fix e assume "suppliers_data (seeded lib) = Inl e"
      with r show ?thesis by (simp add: try_body_suppliers_error)
    next
      fix srows s1
      assume "suppliers_data (seeded lib) = Inr (srows, s1)" and "BATCH_SIZE cfg = 0"
      with r show ?thesis by (simp add: try_body_zero_batch)
    next
      fix srows s1
      assume "suppliers_data (seeded lib) = Inr (srows, s1)" and "BATCH_SIZE cfg \<noteq> 0"
      with Some False show ?thesis by (rule that)
    qed
  qed
qed

lemma missing_host_message_shape:
  "prefix ''SQL_SERVER_HOST'' missing_host_message"
  "suffix (''SQL_SERVER_HOST=Inteli5SSD-Laptop'' @ [CHR 0x5C] @ ''SQLEXPRESS'') missing_host_message"
  by (simp_all add: missing_host_message_def suffix_to_prefix)

text \<open>
  C7. When the environment has no \<open>SQL_SERVER_HOST\<close>, the script ends with a
  \<open>ValueError\<close> before any call is made on the database; its message starts with the name
  of the setting and ends with the example \<open>SQL_SERVER_HOST=Inteli5SSD-Laptop\SQLEXPRESS\<close>.
  When the environment has no \<open>SQL_SERVER_DB\<close>, the database name is
  \<open>TransactionDB_UAT\<close>, and this is the name the script connects with when the host is
  set.
\<close>

theorem missing_host_fails_fast:
  "(getenv env ''SQL_SERVER_HOST'' = None \<longrightarrow>
      main lib cfg env now = \<lparr>db_calls = [], result = Inl (ValueError missing_host_message)\<rparr>
      \<and> prefix ''SQL_SERVER_HOST'' missing_host_message
      \<and> suffix (''SQL_SERVER_HOST=Inteli5SSD-Laptop'' @ [CHR 0x5C] @ ''SQLEXPRESS'')
           missing_host_message)
   \<and> (getenv env ''SQL_SERVER_DB'' = None \<longrightarrow>
      getenv_default env ''SQL_SERVER_DB'' ''TransactionDB_UAT'' = ''TransactionDB_UAT''
      \<and> (\<forall>h. getenv env ''SQL_SERVER_HOST'' = Some h \<and> h \<noteq> [] \<longrightarrow>
            hd (db_calls (main lib cfg env now)) = Connect (conn_string h ''TransactionDB_UAT'')))"
proof -
  have d: "getenv_default env ''SQL_SERVER_DB'' ''TransactionDB_UAT'' = ''TransactionDB_UAT''"
    if "getenv env ''SQL_SERVER_DB'' = None"
    using that by (simp add: getenv_default_def getenv_def)
  have c: "hd (db_calls (main lib cfg env now)) = Connect (conn_string h ''TransactionDB_UAT'')"
    if "getenv env ''SQL_SERVER_DB'' = None" and "getenv env ''SQL_SERVER_HOST'' = Some h"
      and "h \<noteq> []" for h
  proof -
    obtain rest where "fst (try_body cfg now [Connect (conn_string h ''TransactionDB_UAT'')] (seeded lib))
      = [Connect (conn_string h ''TransactionDB_UAT'')] @ rest"
      using try_body_extends by blast
    then show ?thesis
      using that by (simp add: main_host d)
  qed
  show ?thesis
    using main_no_host [of env lib cfg now] missing_host_message_shape d c by blast
qed

theorem missing_host_fails_fast_witness:
  "main (steady_library 0 [] 0) script_config (map_of []) 0
     = \<lparr>db_calls = [], result = Inl (ValueError missing_host_message)\<rparr>
   \<and> hd (db_calls (main (steady_library 0 [] 0) script_config
                     (map_of [(''SQL_SERVER_HOST'', ''localhost'')]) 0))
     = Connect (conn_string ''localhost'' ''TransactionDB_UAT'')"
proof -
  have h1: "getenv (map_of []) ''SQL_SERVER_HOST'' = None"
    by (simp add: getenv_def)
  have h2: "getenv (map_of [(''SQL_SERVER_HOST'', ''localhost'')]) ''SQL_SERVER_DB'' = None"
    by (simp add: getenv_def)
  have h3: "getenv (map_of [(''SQL_SERVER_HOST'', ''localhost'')]) ''SQL_SERVER_HOST''
      = Some ''localhost''"
    by (simp add: getenv_def)
  from missing_host_fails_fast [of "map_of []" "steady_library 0 [] 0" script_config 0]
    missing_host_fails_fast [of "map_of [(''SQL_SERVER_HOST'', ''localhost'')]"
      "steady_library 0 [] 0" script_config 0]
    h1 h2 h3
  show ?thesis by simp
qed

section \<open>The summary and the rows inserted\<close>

lemma rows_inserted_append: "rows_inserted (xs @ ys) = rows_inserted xs + rows_inserted ys"
  by (induction xs rule: rows_inserted.induct) simp_all

lemma spec_loading_calls_no_customers:
  "customer_inserts (spec_loading_calls (\<lambda>k. InsertProducts (f k)) n) = []"
proof -
  have "customer_inserts
          (concat (map (\<lambda>k. InsertProducts (f k) # (if (int k + 1) mod 10 = 0 then [Commit] else []))
                       [0..<n])) = []"
    by (induction n) (simp_all add: customer_inserts_append)
  then show ?thesis by (simp add: spec_loading_calls_def customer_inserts_append)
qed

lemma spec_loading_calls_no_products:
  "product_inserts (spec_loading_calls (\<lambda>k. InsertCustomers (f k)) n) = []"
proof -
  have "product_inserts
          (concat (map (\<lambda>k. InsertCustomers (f k) # (if (int k + 1) mod 10 = 0 then [Commit] else []))
                       [0..<n])) = []"
    by (induction n) (simp_all add: product_inserts_append)
  then show ?thesis by (simp add: spec_loading_calls_def product_inserts_append)
qed

lemma spec_loading_calls_customer_rows:
  "rows_inserted (spec_loading_calls (\<lambda>k. InsertCustomers (f k)) n) = length (concat (map f [0..<n]))"
proof -
  have "rows_inserted
          (concat (map (\<lambda>k. InsertCustomers (f k) # (if (int k + 1) mod 10 = 0 then [Commit] else []))
                       [0..<n])) = length (concat (map f [0..<n]))"
    by (induction n) (simp_all add: rows_inserted_append)
  then show ?thesis by (simp add: spec_loading_calls_def rows_inserted_append)
qed

lemma spec_loading_calls_product_rows:
  "rows_inserted (spec_loading_calls (\<lambda>k. InsertProducts (f k)) n) = length (concat (map f [0..<n]))"
proof -
  have "rows_inserted
          (concat (map (\<lambda>k. InsertProducts (f k) # (if (int k + 1) mod 10 = 0 then [Commit] else []))
                       [0..<n])) = length (concat (map f [0..<n]))"
    by (induction n) (simp_all add: rows_inserted_append)
  then show ?thesis by (simp add: spec_loading_calls_def rows_inserted_append)
qed

lemma length_categories_data: "length categories_data = 8"
  by (simp add: categories_data_def)

lemma main_success:
  assumes "getenv env ''SQL_SERVER_HOST'' = Some h" and "h \<noteq> []"
    and "suppliers_data (seeded lib) = Inr (srows, s1)" and "BATCH_SIZE cfg \<noteq> 0"
  shows "result (main lib cfg env now) = Inr (final_summary cfg)"
    and "customer_inserts (db_calls (main lib cfg env now)) =
         map (\<lambda>k. fst (customers_batch now (BATCH_SIZE cfg) (customers_gens now (BATCH_SIZE cfg) k s1)))
             [0..<nat (CUSTOMERS_TOTAL cfg div BATCH_SIZE cfg)]"
    and "product_inserts (db_calls (main lib cfg env now)) =
         map (\<lambda>k. fst (products_batch now (BATCH_SIZE cfg)
                (products_gens now (BATCH_SIZE cfg) k
                   (customers_gens now (BATCH_SIZE cfg)
                      (nat (CUSTOMERS_TOTAL cfg div BATCH_SIZE cfg)) s1))))
             [0..<nat (PRODUCTS_TOTAL cfg div BATCH_SIZE cfg)]"
    and "rows_inserted (db_calls (main lib cfg env now)) =
         8 + 5000 + length (concat (customer_inserts (db_calls (main lib cfg env now))))
           + length (concat (product_inserts (db_calls (main lib cfg env now))))"
proof -
  note m = main_host [OF assms(1,2)] try_body_success [OF assms(3,4)]
  show "result (main lib cfg env now) = Inr (final_summary cfg)"
    by (simp add: m)
  show c: "customer_inserts (db_calls (main lib cfg env now)) =
         map (\<lambda>k. fst (customers_batch now (BATCH_SIZE cfg) (customers_gens now (BATCH_SIZE cfg) k s1)))
             [0..<nat (CUSTOMERS_TOTAL cfg div BATCH_SIZE cfg)]"
    by (simp add: m customer_inserts_append spec_loading_calls_customer_inserts
        spec_loading_calls_no_customers)
  show p: "product_inserts (db_calls (main lib cfg env now)) =
         map (\<lambda>k. fst (products_batch now (BATCH_SIZE cfg)
                (products_gens now (BATCH_SIZE cfg) k
                   (customers_gens now (BATCH_SIZE cfg)
                      (nat (CUSTOMERS_TOTAL cfg div BATCH_SIZE cfg)) s1))))
             [0..<nat (PRODUCTS_TOTAL cfg div BATCH_SIZE cfg)]"
    by (simp add: m product_inserts_append spec_loading_calls_product_inserts
        spec_loading_calls_no_products)
  show "rows_inserted (db_calls (main lib cfg env now)) =
         8 + 5000 + length (concat (customer_inserts (db_calls (main lib cfg env now))))
           + length (concat (product_inserts (db_calls (main lib cfg env now))))"
    unfolding c p
    by (simp add: m rows_inserted_append spec_loading_calls_customer_rows spec_loading_calls_product_rows
        length_categories_data suppliers_data_length [OF assms(3)])
qed

lemma inserted_length:
  assumes "0 \<le> N" and "0 < B" and "\<And>k. length (f k) = nat B"
  shows "int (length (concat (map f [0..<nat (N div B)]))) = (N div B) * B"
proof -
  have "length (concat (map f [0..<nat (N div B)])) = nat (N div B) * nat B"
    using assms(3) by (rule length_concat_const)
  moreover have "0 \<le> N div B" using assms(1,2) by (simp add: pos_imp_zdiv_nonneg_iff)
  ultimately show ?thesis using assms(2) by simp
qed

text \<open>
  C10. A run that reaches the final summary, for totals \<open>N \<ge> 0\<close> and a batch size
  \<open>B > 0\<close>, reports the configured totals: \<open>CUSTOMERS_TOTAL\<close>, \<open>PRODUCTS_TOTAL\<close>, 8
  categories, 5000 suppliers and their sum. The rows the run has inserted are
  \<open>(N div B) * B\<close> per table, so each reported count exceeds the inserted count by
  \<open>N mod B\<close> and equals it exactly when the total is a multiple of the batch size; the
  reported grand total exceeds the rows inserted by the sum of the two remainders. The
  running counter \<open>total_inserted\<close> of a loading phase ends at the rows inserted, so the
  reported count exceeds it by \<open>N mod B\<close> as well.
\<close>

theorem summary_reports_configured_totals:
  assumes "0 \<le> CUSTOMERS_TOTAL cfg" and "0 \<le> PRODUCTS_TOTAL cfg" and "0 < BATCH_SIZE cfg"
    and "result (main lib cfg env now) = Inr summ"
  shows "categories_rows summ = 8 \<and> suppliers_rows summ = 5000
       \<and> customers_rows summ = CUSTOMERS_TOTAL cfg
       \<and> products_rows summ = PRODUCTS_TOTAL cfg
       \<and> total_rows summ = 8 + 5000 + CUSTOMERS_TOTAL cfg + PRODUCTS_TOTAL cfg
       \<and> customers_rows summ
           - int (length (concat (customer_inserts (db_calls (main lib cfg env now)))))
          = CUSTOMERS_TOTAL cfg mod BATCH_SIZE cfg
       \<and> products_rows summ
           - int (length (concat (product_inserts (db_calls (main lib cfg env now)))))
          = PRODUCTS_TOTAL cfg mod BATCH_SIZE cfg
       \<and> total_rows summ - int (rows_inserted (db_calls (main lib cfg env now)))
          = CUSTOMERS_TOTAL cfg mod BATCH_SIZE cfg + PRODUCTS_TOTAL cfg mod BATCH_SIZE cfg
       \<and> (customers_rows summ
            = int (length (concat (customer_inserts (db_calls (main lib cfg env now)))))
          \<longleftrightarrow> CUSTOMERS_TOTAL cfg mod BATCH_SIZE cfg = 0)
       \<and> (products_rows summ
            = int (length (concat (product_inserts (db_calls (main lib cfg env now)))))
          \<longleftrightarrow> PRODUCTS_TOTAL cfg mod BATCH_SIZE cfg = 0)
       \<and> (total_rows summ = int (rows_inserted (db_calls (main lib cfg env now)))
          \<longleftrightarrow> CUSTOMERS_TOTAL cfg mod BATCH_SIZE cfg = 0
              \<and> PRODUCTS_TOTAL cfg mod BATCH_SIZE cfg = 0)
       \<and> (\<exists>st. load_customers cfg now c s = Inr st
             \<and> customers_rows summ - total_inserted st
                = CUSTOMERS_TOTAL cfg mod BATCH_SIZE cfg)
       \<and> (\<exists>st. load_products cfg now c s = Inr st
             \<and> products_rows summ - total_inserted st
                = PRODUCTS_TOTAL cfg mod BATCH_SIZE cfg)"
proof -
  define calls where "calls = db_calls (main lib cfg env now)"
  define B where "B = BATCH_SIZE cfg"
  define C where "C = CUSTOMERS_TOTAL cfg"
  define P where "P = PRODUCTS_TOTAL cfg"
  from assms(4) obtain h srows s1 where
    ok: "getenv env ''SQL_SERVER_HOST'' = Some h" "h \<noteq> []"
      "suppliers_data (seeded lib) = Inr (srows, s1)" "BATCH_SIZE cfg \<noteq> 0"
    by (rule main_result_Inr)
  note ms = main_success [OF ok, of now]
  from ms(1) assms(4) have summ: "summ = final_summary cfg" by simp
  have ci: "int (length (concat (customer_inserts calls))) = (C div B) * B"
    unfolding calls_def ms(2) C_def B_def
    using assms(1,3) by (rule inserted_length) (simp add: customers_batch_length)
  have pi: "int (length (concat (product_inserts calls))) = (P div B) * B"
    unfolding calls_def ms(3) P_def B_def
    using assms(2,3) by (rule inserted_length) (simp add: products_batch_length)
  have ri: "int (rows_inserted calls) = 8 + 5000 + (C div B) * B + (P div B) * B"
    using ms(4) ci pi unfolding calls_def by simp
  have rc: "C - (C div B) * B = C mod B" and rp: "P - (P div B) * B = P mod B"
    by (simp_all add: minus_div_mult_eq_mod)
  have B: "0 < B" using assms(3) by (simp add: B_def)
  then have nn: "0 \<le> C mod B" "0 \<le> P mod B" by simp_all
  have s: "categories_rows summ = 8" "suppliers_rows summ = 5000" "customers_rows summ = C"
    "products_rows summ = P" "total_rows summ = 8 + 5000 + C + P"
    by (simp_all add: summ final_summary_def length_categories_data C_def P_def)
  from load_customers_rows [OF assms(1,3), of now c s] obtain st where
    st: "load_customers cfg now c s = Inr st" "total_inserted st = (C div B) * B"
    unfolding C_def B_def by blast
  from load_products_rows [OF assms(2,3), of now c s] obtain st' where
    st': "load_products cfg now c s = Inr st'" "total_inserted st' = (P div B) * B"
    unfolding P_def B_def by blast
  have cnt: "\<exists>st. load_customers cfg now c s = Inr st \<and> customers_rows summ - total_inserted st = C mod B"
    "\<exists>st. load_products cfg now c s = Inr st \<and> products_rows summ - total_inserted st = P mod B"
    using st st' s rc rp by auto
  have main: "categories_rows summ = 8 \<and> suppliers_rows summ = 5000
       \<and> customers_rows summ = C \<and> products_rows summ = P
       \<and> total_rows summ = 8 + 5000 + C + P
       \<and> customers_rows summ - int (length (concat (customer_inserts calls))) = C mod B
       \<and> products_rows summ - int (length (concat (product_inserts calls))) = P mod B
       \<and> total_rows summ - int (rows_inserted calls) = C mod B + P mod B
       \<and> (customers_rows summ = int (length (concat (customer_inserts calls))) \<longleftrightarrow> C mod B = 0)
       \<and> (products_rows summ = int (length (concat (product_inserts calls))) \<longleftrightarrow> P mod B = 0)
       \<and> (total_rows summ = int (rows_inserted calls) \<longleftrightarrow> C mod B = 0 \<and> P mod B = 0)"
    using s ci pi ri rc rp nn by auto
  show ?thesis
    unfolding calls_def [symmetric] B_def [symmetric] C_def [symmetric] P_def [symmetric]
    using main cnt by (elim conjE) (intro conjI; assumption)
qed

section \<open>A run that succeeds\<close>

lemma seeded_steady_library: "seeded (steady_library r t k) = steady r t k"
  by (simp add: seeded_def steady_library_def steady_def)

theorem summary_reports_configured_totals_witness:
  "result (main (steady_library 0 [] 0)
            \<lparr>BATCH_SIZE = 10000, CUSTOMERS_TOTAL = 10005, PRODUCTS_TOTAL = 150000\<rparr>
            (map_of [(''SQL_SERVER_HOST'', ''localhost'')]) 0)
     = Inr (final_summary \<lparr>BATCH_SIZE = 10000, CUSTOMERS_TOTAL = 10005, PRODUCTS_TOTAL = 150000\<rparr>)
   \<and> customers_rows (final_summary \<lparr>BATCH_SIZE = 10000, CUSTOMERS_TOTAL = 10005,
                                     PRODUCTS_TOTAL = 150000\<rparr>) = 10005
   \<and> int (length (concat (customer_inserts (db_calls (main (steady_library 0 [] 0)
            \<lparr>BATCH_SIZE = 10000, CUSTOMERS_TOTAL = 10005, PRODUCTS_TOTAL = 150000\<rparr>
            (map_of [(''SQL_SERVER_HOST'', ''localhost'')]) 0))))) = 10000"
proof -
  let ?cfg = "\<lparr>BATCH_SIZE = 10000, CUSTOMERS_TOTAL = 10005, PRODUCTS_TOTAL = 150000\<rparr>"
  let ?env = "map_of [(''SQL_SERVER_HOST'', ''localhost'')]"
  have h: "0 \<le> CUSTOMERS_TOTAL ?cfg" "0 \<le> PRODUCTS_TOTAL ?cfg" "0 < BATCH_SIZE ?cfg"
    by simp_all
  obtain rows where
    sd: "suppliers_data (seeded (steady_library 0 [] 0)) = Inr (rows, steady 0 [] 0)"
    using steady_suppliers_data [of "[]" 0] by (auto simp: seeded_steady_library)
  have hst: "getenv ?env ''SQL_SERVER_HOST'' = Some ''localhost''"
    by (simp add: getenv_def)
  have ne: "''localhost'' \<noteq> []" by simp
  have b: "BATCH_SIZE ?cfg \<noteq> 0" by simp
  have r: "result (main (steady_library 0 [] 0) ?cfg ?env 0) = Inr (final_summary ?cfg)"
    by (rule main_success(1) [OF hst ne sd b])
  from summary_reports_configured_totals [OF h r, of "[]" "steady 0 [] 0"] r
  show ?thesis by simp
qed

section \<open>Two runs at different times\<close>

lemma customer_row_clock:
  "snd (customer_row n1 s) = snd (customer_row n2 s)"
  "(fst (customer_row n1 s))\<lparr>created_date := 0\<rparr> = (fst (customer_row n2 s))\<lparr>created_date := 0\<rparr>"
  by (simp_all add: customer_row_def gen_created_date_def fake_date_time_between_def
      case_prod_beta Let_def)

lemma customers_loop_clock:
  "snd (customers_loop n1 n s) = snd (customers_loop n2 n s)
   \<and> map (\<lambda>r. r\<lparr>created_date := 0\<rparr>) (fst (customers_loop n1 n s))
     = map (\<lambda>r. r\<lparr>created_date := 0\<rparr>) (fst (customers_loop n2 n s))"
proof (induction n)
  case 0
  then show ?case by simp
next
  case (Suc n)
  then show ?case
    using customer_row_clock [of n1 "snd (customers_loop n2 n s)" n2]
    by (simp add: case_prod_beta)
qed

lemma product_row_clock:
  "snd (product_row n1 i s) = snd (product_row n2 i s)"
  "(fst (product_row n1 i s))\<lparr>product_created := 0\<rparr> = (fst (product_row n2 i s))\<lparr>product_created := 0\<rparr>"
  by (simp_all add: product_row_def fake_date_time_between_def case_prod_beta Let_def)

lemma products_loop_clock:
  "snd (products_loop n1 n s) = snd (products_loop n2 n s)
   \<and> map (\<lambda>r. r\<lparr>product_created := 0\<rparr>) (fst (products_loop n1 n s))
     = map (\<lambda>r. r\<lparr>product_created := 0\<rparr>) (fst (products_loop n2 n s))"
proof (induction n)
  case 0
  then show ?case by simp
next
  case (Suc n)
  then show ?case
    using product_row_clock [of n1 n "snd (products_loop n2 n s)" n2]
    by (simp add: case_prod_beta)
qed

lemma customers_gens_simps:
  "customers_gens now B 0 s = s"
  "customers_gens now B (Suc k) s = snd (customers_batch now B (customers_gens now B k s))"
  by (simp_all add: customers_gens_def case_prod_beta Let_def)

lemma products_gens_simps:
  "products_gens now B 0 s = s"
  "products_gens now B (Suc k) s = snd (products_batch now B (products_gens now B k s))"
  by (simp_all add: products_gens_def case_prod_beta Let_def)

lemma customers_gens_clock: "customers_gens n1 B k s = customers_gens n2 B k s"
  by (induction k) (simp_all add: customers_gens_simps customers_batch_def customers_loop_clock)

lemma products_gens_clock: "products_gens n1 B k s = products_gens n2 B k s"
  by (induction k) (simp_all add: products_gens_simps products_batch_def products_loop_clock)

lemma spec_loading_calls_undated:
  "map undated (spec_loading_calls submit n) = spec_loading_calls (\<lambda>k. undated (submit k)) n"
proof -
  have "map undated (concat (map (\<lambda>k. submit k # (if (int k + 1) mod 10 = 0 then [Commit] else []))
                                 [0..<n]))
      = concat (map (\<lambda>k. undated (submit k) # (if (int k + 1) mod 10 = 0 then [Commit] else []))
                    [0..<n])"
    by (induction n) simp_all
  then show ?thesis by (simp add: spec_loading_calls_def)
qed

lemma undated_customers_clock:
  "undated (InsertCustomers (fst (customers_batch n1 B (customers_gens n1 B k s))))
   = undated (InsertCustomers (fst (customers_batch n2 B (customers_gens n2 B k s))))"
  using customers_loop_clock [of n1 "nat B" "customers_gens n2 B k s" n2]
  by (simp add: customers_batch_def customers_gens_clock [of n1 B k s n2])

lemma undated_products_clock:
  "undated (InsertProducts (fst (products_batch n1 B (products_gens n1 B k s))))
   = undated (InsertProducts (fst (products_batch n2 B (products_gens n2 B k s))))"
  using products_loop_clock [of n1 "nat B" "products_gens n2 B k s" n2]
  by (simp add: products_batch_def products_gens_clock [of n1 B k s n2])

lemma try_body_clock:
  "map undated (fst (try_body cfg n1 c0 s0)) = map undated (fst (try_body cfg n2 c0 s0))
   \<and> snd (try_body cfg n1 c0 s0) = snd (try_body cfg n2 c0 s0)"
proof (rule try_body_cases [of s0 _ cfg])
  fix e assume "suppliers_data s0 = Inl e"
  then show ?thesis by (simp add: try_body_suppliers_error)
next
  fix srows s1 assume "suppliers_data s0 = Inr (srows, s1)" and "BATCH_SIZE cfg = 0"
  then show ?thesis by (simp add: try_body_zero_batch)
next
  fix srows s1 assume a: "suppliers_data s0 = Inr (srows, s1)" "BATCH_SIZE cfg \<noteq> 0"
  define B where "B = BATCH_SIZE cfg"
  define T where "T = nat (CUSTOMERS_TOTAL cfg div B)"
  have g: "customers_gens n1 B T s1 = customers_gens n2 B T s1"
    by (rule customers_gens_clock)
  have c: "(\<lambda>k. undated (InsertCustomers (fst (customers_batch n1 B (customers_gens n1 B k s1)))))
         = (\<lambda>k. undated (InsertCustomers (fst (customers_batch n2 B (customers_gens n2 B k s1)))))"
    by (rule ext) (rule undated_customers_clock)
  have p: "(\<lambda>k. undated (InsertProducts (fst (products_batch n1 B
                (products_gens n1 B k (customers_gens n2 B T s1))))))
         = (\<lambda>k. undated (InsertProducts (fst (products_batch n2 B
                (products_gens n2 B k (customers_gens n2 B T s1))))))"
    by (rule ext) (rule undated_products_clock)
  show ?thesis
    unfolding try_body_success [OF a] B_def [symmetric] T_def [symmetric] fst_conv snd_conv
      map_append spec_loading_calls_undated g c p
    by (rule conjI) (rule refl)+
qed

lemma first_customer_row:
  assumes "getenv env ''SQL_SERVER_HOST'' = Some h" and "h \<noteq> []"
    and "suppliers_data (seeded lib) = Inr (srows, s1)"
    and "0 < BATCH_SIZE cfg" and "BATCH_SIZE cfg \<le> CUSTOMERS_TOTAL cfg"
  shows "concat (customer_inserts (db_calls (main lib cfg env now))) ! 0 = fst (customer_row now s1)"
proof -
  define B where "B = BATCH_SIZE cfg"
  define T where "T = nat (CUSTOMERS_TOTAL cfg div B)"
  define f where "f = (\<lambda>k. fst (customers_batch now B (customers_gens now B k s1)))"
  have B: "0 < B" "B \<noteq> 0" using assms(4) by (simp_all add: B_def)
  have "0 < CUSTOMERS_TOTAL cfg div B"
    using assms(4,5) unfolding B_def by (simp add: pos_imp_zdiv_pos_iff)
  then have T: "0 < T" by (simp add: T_def)
  have ins: "customer_inserts (db_calls (main lib cfg env now)) = map f [0..<T]"
    using main_success(2) [OF assms(1-3), of cfg now] B(2)
    by (simp add: B_def T_def f_def)
  have f0: "f 0 = fst (customers_loop now (nat B) s1)"
    by (simp add: f_def customers_gens_simps customers_batch_def)
  have len: "0 < length (f 0)"
    using B(1) by (simp add: f0 customers_loop_length)
  from T have "[0..<T] = 0 # [1..<T]" by (simp add: upt_conv_Cons)
  then have "concat (map f [0..<T]) ! 0 = f 0 ! 0"
    using len by (simp add: nth_append)
  also have "\<dots> = fst (customer_row now s1)"
    using B(1) by (simp add: f0 customers_loop_nth)
  finally show ?thesis by (simp add: ins)
qed

lemma steady_customer_row_date:
  "created_date (fst (customer_row now (steady 0 t k))) = now + randint_value day (30 * day) k"
  by (simp add: customer_row_def gen_created_date_def fake_date_time_between_def case_prod_beta
      gen_name_email_def fake_email_def Let_def)

text \<open>
  The clock of the run reaches nothing but the creation dates: for one library and its
  seed 42, one configuration and one environment, two runs at any two clock readings
  make the same calls on the connection once the creation dates of the customer and
  product rows are erased, and end with the same result.
\<close>

theorem rows_independent_of_clock:
  "map undated (db_calls (main lib cfg env n1)) = map undated (db_calls (main lib cfg env n2))
   \<and> result (main lib cfg env n1) = result (main lib cfg env n2)"
proof (cases "getenv env ''SQL_SERVER_HOST''")
  case None
  then show ?thesis by (simp add: main_no_host)
next
  case (Some h)
  show ?thesis
  proof (cases "h = []")
    case True
    with Some show ?thesis by (simp add: main_def)
  next
    case False
    show ?thesis
      using try_body_clock
        [of cfg n1 "[Connect (conn_string h (getenv_default env ''SQL_SERVER_DB'' ''TransactionDB_UAT''))]"
            "seeded lib" n2]
      by (simp add: main_host [OF Some False])
  qed
qed

text \<open>
  C8. The seeding does not make the rows repeatable, as the claim and the comment of the
  script beside the seeding have it: with the same library and seed 42, the same
  configuration and the same environment, the run at clock reading 0 and the run one
  second later insert different customer rows, because the creation dates are drawn
  between bounds that follow the clock of the run.
\<close>

theorem clock_changes_rows_counterexample:
  "concat (customer_inserts (db_calls (main (steady_library 0 [] 0) script_config
             (map_of [(''SQL_SERVER_HOST'', ''localhost'')]) 0)))
   \<noteq> concat (customer_inserts (db_calls (main (steady_library 0 [] 0) script_config
             (map_of [(''SQL_SERVER_HOST'', ''localhost'')]) 1)))"
proof -
  let ?env = "map_of [(''SQL_SERVER_HOST'', ''localhost'')]"
  let ?lib = "steady_library 0 [] 0"
  obtain rows where
    sd: "suppliers_data (seeded ?lib) = Inr (rows, steady 0 [] 0)"
    using steady_suppliers_data [of "[]" 0] by (auto simp: seeded_steady_library)
  have hst: "getenv ?env ''SQL_SERVER_HOST'' = Some ''localhost''"
    by (simp add: getenv_def)
  have ne: "''localhost'' \<noteq> []" by simp
  have b: "0 < BATCH_SIZE script_config" "BATCH_SIZE script_config \<le> CUSTOMERS_TOTAL script_config"
    by (simp_all add: script_config_def)
  note first = first_customer_row [OF hst ne sd b]
  have "created_date (concat (customer_inserts (db_calls (main ?lib script_config ?env 0))) ! 0)
      \<noteq> created_date (concat (customer_inserts (db_calls (main ?lib script_config ?env 1))) ! 0)"
    unfolding first by (simp add: steady_customer_row_date)
  then show ?thesis by metis
qed

end
